theory Spec2Isabelle
  imports Main "HOL-Library.Word"
begin

unbundle bit_operations_syntax

section \<open>ZL3073x identity reader: a shallow embedding of zl30733\_id.c\<close>

text \<open>
  The C program reads four identity registers of a ZL3073x clock synchroniser over
  Linux spidev and prints them. Its functions are translated one by one:
  \<^item> \<open>uint8_t\<close>, \<open>uint16_t\<close>, \<open>uint32_t\<close> are \<open>8 word\<close>, \<open>16 word\<close>, \<open>32 word\<close>;
    \<open>size_t\<close> lengths are \<open>nat\<close>; \<open>int\<close> return codes are \<open>int\<close>;
  \<^item> a byte buffer is a \<open>u8 list\<close>; a function that writes through a pointer
    returns the new contents of the buffer;
  \<^item> the process-wide variables (\<open>devnode\<close>, \<open>speed_hz\<close>, \<open>mode\<close>,
    \<open>bits_per_word\<close>, \<open>debug\<close>) are the record \<open>config\<close>;
  \<^item> everything outside the program (the SPI slave behind the \<open>ioctl\<close>, the
    allocator, the diagnostic stream) is the record \<open>world\<close>, passed in and returned;
  \<^item> \<open>errx\<close> ends the process: it is the \<open>Inl\<close> branch of a sum.
\<close>

type_synonym u8 = "8 word"
type_synonym u16 = "16 word"
type_synonym u32 = "32 word"

subsection \<open>Constants of the register map and of the C library\<close>

definition ZL_PAGE_SIZE :: nat where "ZL_PAGE_SIZE = 0x80"
definition ZL_PAGE_SEL :: u8 where "ZL_PAGE_SEL = 0x7F"

definition ZL_REG_ID :: u16 where "ZL_REG_ID = 0x0001"
definition ZL_REG_REVISION :: u16 where "ZL_REG_REVISION = 0x0003"
definition ZL_REG_FW_VER :: u16 where "ZL_REG_FW_VER = 0x0005"
definition ZL_REG_CUSTOM_CONFIG_VER :: u16 where "ZL_REG_CUSTOM_CONFIG_VER = 0x0007"

text \<open>The values of \<open>errno.h\<close> and \<open>stdlib.h\<close> on Linux.\<close>

definition EINVAL :: int where "EINVAL = 22"
definition ENOMEM :: int where "ENOMEM = 12"
definition EXIT_FAILURE :: int where "EXIT_FAILURE = 1"
definition EXIT_SUCCESS :: int where "EXIT_SUCCESS = 0"

subsection \<open>The conversions of printf that the program uses\<close>

definition newline :: string where
  "newline = [CHR 0x0A]"

definition digit_char :: "nat \<Rightarrow> char" where
  "digit_char d = ''0123456789ABCDEF'' ! (d mod 16)"

text \<open>The digits of \<open>n\<close> in base \<open>b\<close>, most significant first; \<open>0\<close> is one digit.\<close>

function digits :: "nat \<Rightarrow> nat \<Rightarrow> string" where
  "digits b n =
     (if b < 2 \<or> n < b then [digit_char n]
      else digits b (n div b) @ [digit_char (n mod b)])"
  by pat_completeness auto
termination
  by (relation "measure (\<lambda>(b, n). n)") auto

declare digits.simps [simp del]

text \<open>\<open>%0wX\<close>: upper-case hexadecimal, padded with zeros to at least \<open>w\<close> digits
  (\<open>%X\<close> is \<open>w = 0\<close>). \<open>%u\<close> and \<open>%zu\<close>: decimal.\<close>

definition printf_X :: "nat \<Rightarrow> nat \<Rightarrow> string" where
  "printf_X w n = (let ds = digits 16 n in replicate (w - length ds) (CHR ''0'') @ ds)"

definition printf_u :: "nat \<Rightarrow> string" where
  "printf_u n = digits 10 n"

subsection \<open>The table of known chip IDs\<close>

record id_map =
  id' :: u16
  name :: string

definition known_ids :: "id_map list" where
  "known_ids =
     [\<lparr>id' = 0x0E95, name = ''ZL3073x (A)''\<rparr>,
      \<lparr>id' = 0x1E95, name = ''ZL3073x (B)''\<rparr>,
      \<lparr>id' = 0x2E95, name = ''ZL3073x (C)''\<rparr>]"

text \<open>The \<open>for\<close> loop of \<open>lookup_name\<close> over the entries that are left: the first
  entry with an equal id returns its name, the end of the table returns "Unknown".\<close>

fun lookup_name_loop :: "id_map list \<Rightarrow> u16 \<Rightarrow> string" where
  "lookup_name_loop [] i = ''Unknown''"
| "lookup_name_loop (e # es) i = (if id' e = i then name e else lookup_name_loop es i)"

definition lookup_name :: "u16 \<Rightarrow> string" where
  "lookup_name i = lookup_name_loop known_ids i"

subsection \<open>The world outside the program\<close>

text \<open>The run-time options: the static variables that \<open>main\<close> sets from the command
  line before the probe starts.\<close>

record config =
  devnode :: string
  speed_hz :: u32
  mode :: u8
  bits_per_word :: u8
  debug :: int

text \<open>\<open>struct spi_ioc_transfer\<close>, with the fields the program sets. A buffer pointer
  is the contents it points to; the null \<open>rx_buf\<close> is \<open>None\<close>.\<close>

record spi_ioc_transfer =
  tx_buf :: "u8 list"
  rx_buf :: "u8 list option"
  xfer_len :: u32
  xfer_speed_hz :: u32
  xfer_bits_per_word :: u8
  cs_change :: u8

text \<open>The SPI slave and its driver: from the state of the device and one transfer to
  the return value of the \<open>ioctl\<close>, the bytes clocked in, and the next state.\<close>

type_synonym 'd spi_bus = "'d \<Rightarrow> spi_ioc_transfer \<Rightarrow> int \<times> u8 list \<times> 'd"

text \<open>
  \<^item> \<open>dev\<close>: the state of the device;
  \<^item> \<open>xfers\<close>: every transfer submitted so far, with what the \<open>ioctl\<close> returned;
  \<^item> \<open>allocs\<close>: whether each of the next calls of \<open>calloc\<close> succeeds (every call
    past the end of the list succeeds);
  \<^item> \<open>stderr\<close>: the text written to the diagnostic stream.
\<close>

record 'd world =
  dev :: 'd
  xfers :: "(spi_ioc_transfer \<times> int) list"
  allocs :: "bool list"
  stderr :: string

text \<open>\<open>ioctl(fd, SPI_IOC_MESSAGE(1), &xfer)\<close>: the transfer is recorded, the device
  moves on, and the bytes received overwrite the start of the receive buffer, never
  past its end. The result is the return value and the receive buffer afterwards
  (empty when there is none).\<close>

definition received :: "u8 list \<Rightarrow> u8 list \<Rightarrow> u8 list" where
  "received data rx = take (length rx) (data @ drop (length data) rx)"

definition ioctl_SPI_IOC_MESSAGE ::
  "'d spi_bus \<Rightarrow> 'd world \<Rightarrow> spi_ioc_transfer \<Rightarrow> int \<times> u8 list \<times> 'd world" where
  "ioctl_SPI_IOC_MESSAGE bus w xfer =
     (case bus (dev w) xfer of
        (ret, data, d) \<Rightarrow>
          (ret,
           (case rx_buf xfer of None \<Rightarrow> [] | Some rx \<Rightarrow> received data rx),
           w\<lparr>dev := d, xfers := xfers w @ [(xfer, ret)]\<rparr>))"

text \<open>\<open>calloc(nmemb, size)\<close>: a zeroed buffer, or the null pointer.\<close>

definition calloc :: "'d world \<Rightarrow> nat \<Rightarrow> nat \<Rightarrow> u8 list option \<times> 'd world" where
  "calloc w nmemb sz =
     (case allocs w of
        [] \<Rightarrow> (Some (replicate (nmemb * sz) 0), w)
      | ok # rest \<Rightarrow>
          ((if ok then Some (replicate (nmemb * sz) 0) else None), w\<lparr>allocs := rest\<rparr>))"

text \<open>\<open>memcpy(dst, src, n)\<close> for \<open>n\<close> within both buffers.\<close>

definition memcpy :: "u8 list \<Rightarrow> u8 list \<Rightarrow> nat \<Rightarrow> u8 list" where
  "memcpy dst src n = take n src @ drop n dst"

definition fprintf_stderr :: "'d world \<Rightarrow> string \<Rightarrow> 'd world" where
  "fprintf_stderr w s = w\<lparr>stderr := stderr w @ s\<rparr>"

text \<open>\<open>snprintf\<close> into a buffer of \<open>n\<close> bytes keeps \<open>n - 1\<close> characters.\<close>

definition snprintf :: "nat \<Rightarrow> string \<Rightarrow> string" where
  "snprintf n s = take (n - 1) s"

subsection \<open>The functions of the program\<close>

definition hexdump :: "'d world \<Rightarrow> string \<Rightarrow> u8 list \<Rightarrow> nat \<Rightarrow> 'd world" where
  "hexdump w prefix buf len =
     fprintf_stderr w
       (prefix
        @ concat (map (\<lambda>i. (if i \<noteq> 0 then '' '' else []) @ printf_X 2 (unat (buf ! i)))
                   [0..<len])
        @ newline)"

definition spi_write_u8 ::
  "config \<Rightarrow> 'd spi_bus \<Rightarrow> 'd world \<Rightarrow> u8 \<Rightarrow> u8 \<Rightarrow> int \<times> 'd world" where
  "spi_write_u8 cfg bus w reg_off val =
     (let tx = [reg_off, val];
          w1 = (if debug cfg > 0
                then hexdump w
                       (snprintf 64
                          (''SPI_W: off=0x'' @ printf_X 2 (unat reg_off) @ '',  data=''))
                       (drop 1 tx) 1
                else w);
          xfer = \<lparr>tx_buf = tx, rx_buf = None, xfer_len = of_nat (length tx),
                  xfer_speed_hz = speed_hz cfg, xfer_bits_per_word = bits_per_word cfg,
                  cs_change = 0\<rparr>
      in case ioctl_SPI_IOC_MESSAGE bus w1 xfer of
           (ret, rx, w2) \<Rightarrow> ((if ret < 1 then - 1 else 0), w2))"

text \<open>\<open>spi_read\<close> returns its status, the caller's buffer \<open>buf\<close> afterwards, and the
  world. Both scratch buffers are requested before either is tested.\<close>

definition spi_read ::
  "config \<Rightarrow> 'd spi_bus \<Rightarrow> 'd world \<Rightarrow> u8 \<Rightarrow> u8 list \<Rightarrow> nat \<Rightarrow> int \<times> u8 list \<times> 'd world" where
  "spi_read cfg bus w reg_off buf len =
     (if len = 0 \<or> len > 255 then (- EINVAL, buf, w)
      else
        case calloc w 1 (len + 1) of
          (tx, w1) \<Rightarrow>
            (case calloc w1 1 (len + 1) of
               (rx, w2) \<Rightarrow>
                 (case (tx, rx) of
                    (Some tx0, Some rx0) \<Rightarrow>
                      (let xfer = \<lparr>tx_buf = tx0[0 := reg_off], rx_buf = Some rx0,
                                    xfer_len = of_nat (len + 1),
                                    xfer_speed_hz = speed_hz cfg,
                                    xfer_bits_per_word = bits_per_word cfg,
                                    cs_change = 0\<rparr>
                       in case ioctl_SPI_IOC_MESSAGE bus w2 xfer of
                            (ret, rx1, w3) \<Rightarrow>
                              if ret < 1 then (- 1, buf, w3)
                              else
                                (let w4 = (if debug cfg > 0
                                           then hexdump w3
                                                  (snprintf 64
                                                     (''SPI_R: off=0x''
                                                      @ printf_X 2 (unat reg_off) @ '' rx=''))
                                                  (drop 1 rx1) len
                                           else w3)
                                 in (0, memcpy buf (drop 1 rx1) len, w4)))
                  | _ \<Rightarrow> (- ENOMEM, buf, w2))))"

definition zl_set_page :: "config \<Rightarrow> 'd spi_bus \<Rightarrow> 'd world \<Rightarrow> u8 \<Rightarrow> int \<times> 'd world" where
  "zl_set_page cfg bus w page =
     (if page > 0x0F then (- EINVAL, w)
      else
        let w1 = (if debug cfg > 0
                  then fprintf_stderr w
                         (''PAGE -> 0x'' @ printf_X 0 (unat (page AND 0xf))
                          @ '' (write 0x'' @ printf_X 2 (unat (page AND 0xf))
                          @ '' to 0x'' @ printf_X 2 (unat ZL_PAGE_SEL) @ '')'' @ newline)
                  else w)
        in spi_write_u8 cfg bus w1 ZL_PAGE_SEL (page AND 0x0F))"

text \<open>The two halves of a logical register address, as \<open>zl_read_reg\<close> computes them.\<close>

definition reg_page :: "u16 \<Rightarrow> u8" where
  "reg_page reg = ucast (drop_bit 7 reg AND 0x0F)"

definition reg_offset :: "u16 \<Rightarrow> u8" where
  "reg_offset reg = ucast (reg AND 0x7F)"

definition zl_read_reg ::
  "config \<Rightarrow> 'd spi_bus \<Rightarrow> 'd world \<Rightarrow> u16 \<Rightarrow> u8 list \<Rightarrow> nat \<Rightarrow> int \<times> u8 list \<times> 'd world" where
  "zl_read_reg cfg bus w reg buf len =
     (let page = reg_page reg;
          off = reg_offset reg
      in case zl_set_page cfg bus w page of
           (rc, w1) \<Rightarrow> if rc \<noteq> 0 then (rc, buf, w1) else spi_read cfg bus w1 off buf len)"

subsection \<open>Byte order of the host\<close>

text \<open>\<open>memcpy(&_t, _b, n)\<close> gives \<open>_t\<close> the value whose object representation is the
  first \<open>n\<close> bytes of \<open>_b\<close>, which depends on the byte order of the host; \<open>ntohs\<close> and
  \<open>ntohl\<close> swap the bytes on a little-endian host and do nothing on a big-endian
  one.\<close>

datatype endian = LittleEndian | BigEndian

fun from_le :: "u8 list \<Rightarrow> 'a::len word" where
  "from_le [] = 0"
| "from_le (b # bs) = ucast b OR push_bit 8 (from_le bs)"

definition object_value :: "endian \<Rightarrow> u8 list \<Rightarrow> 'a::len word" where
  "object_value en bs = (case en of LittleEndian \<Rightarrow> from_le bs | BigEndian \<Rightarrow> from_le (rev bs))"

definition bswap16 :: "u16 \<Rightarrow> u16" where
  "bswap16 x = push_bit 8 x OR drop_bit 8 x"

definition bswap32 :: "u32 \<Rightarrow> u32" where
  "bswap32 x =
     push_bit 24 x OR push_bit 8 (x AND 0xFF00) OR (drop_bit 8 x AND 0xFF00) OR drop_bit 24 x"

definition ntohs :: "endian \<Rightarrow> u16 \<Rightarrow> u16" where
  "ntohs en x = (case en of LittleEndian \<Rightarrow> bswap16 x | BigEndian \<Rightarrow> x)"

definition ntohl :: "endian \<Rightarrow> u32 \<Rightarrow> u32" where
  "ntohl en x = (case en of LittleEndian \<Rightarrow> bswap32 x | BigEndian \<Rightarrow> x)"

subsection \<open>The macro \<open>ZL_READ_REG\<close> and the probe of \<open>main\<close>\<close>

text \<open>\<open>errx(status, msg)\<close> ends the process with the message; \<open>warnx\<close> prints it
  and goes on. (The program name that both put before the message is left out.)\<close>

datatype fatal = Errx int string

definition warnx :: "'d world \<Rightarrow> string \<Rightarrow> 'd world" where
  "warnx w msg = fprintf_stderr w (msg @ newline)"

text \<open>An automatic array of \<open>n\<close> bytes that the program does not initialise: its
  contents are whatever \<open>junk\<close> the stack holds.\<close>

definition uninit :: "nat \<Rightarrow> u8 list \<Rightarrow> u8 list" where
  "uninit n junk = take n (junk @ replicate n 0)"

text \<open>
  \<open>ZL_READ_REG(FD, REG, OUTVAR, LEN)\<close>. \<open>OUTVAR\<close> is an unsigned integer variable of
  type \<open>'a word\<close>, so \<open>sizeof(OUTVAR)\<close> is \<open>LENGTH('a) div 8\<close> and the cast
  \<open>(typeof(OUTVAR))\<close> is \<open>ucast\<close>. \<open>REGn\<close> and \<open>OUTVARn\<close> are the spellings
  \<open>#REG\<close> and \<open>#OUTVAR\<close>. The result is the value assigned to \<open>OUTVAR\<close>, or the
  \<open>errx\<close> that ended the process.
\<close>

definition ZL_READ_REG ::
  "endian \<Rightarrow> config \<Rightarrow> 'd spi_bus \<Rightarrow> 'd world \<Rightarrow> u8 list \<Rightarrow> string \<Rightarrow> string \<Rightarrow> u16 \<Rightarrow> nat
   \<Rightarrow> (fatal + 'a::len word) \<times> 'd world" where
  "ZL_READ_REG en cfg bus w junk REGn OUTVARn REG len =
     (let b0 = uninit 8 junk in
      if len > length b0
      then (Inl (Errx EXIT_FAILURE
                   (REGn @ '' read len '' @ printf_u len @ '' > '' @ printf_u (length b0))), w)
      else
        let w1 = (if len > LENGTH('a) div 8
                  then warnx w (REGn @ '' read len '' @ printf_u len @ '' > ''
                                @ printf_u (LENGTH('a) div 8) @ '' for '' @ OUTVARn)
                  else w)
        in case zl_read_reg cfg bus w1 REG b0 len of
             (rc, b, w2) \<Rightarrow>
               if rc < 0 then (Inl (Errx EXIT_FAILURE (''read '' @ REGn @ '' failed'')), w2)
               else if len = 1 then (Inr (ucast (b ! 0)), w2)
               else if len = 2
                 then (Inr (ucast (ntohs en (object_value en (take 2 b)))), w2)
               else if len = 4
                 then (Inr (ucast (ntohl en (object_value en (take 4 b)))), w2)
               else (Inl (Errx EXIT_FAILURE
                            (REGn @ '' unsupported LEN='' @ printf_u len
                             @ '' (only 8,16,32 bits)'')), w2))"

text \<open>The five \<open>printf\<close> calls at the end of \<open>main\<close>.\<close>

definition report :: "config \<Rightarrow> u16 \<Rightarrow> u16 \<Rightarrow> u16 \<Rightarrow> u32 \<Rightarrow> string" where
  "report cfg chip_id revision fw_ver cfg_ver =
     ''ZL3073x identity via '' @ devnode cfg @ newline
     @ ''  Chip ID              : 0x'' @ printf_X 4 (unat chip_id)
       @ ''  ('' @ lookup_name chip_id @ '')'' @ newline
     @ ''  Revision             : 0x'' @ printf_X 4 (unat revision)
       @ ''  (major='' @ printf_u (unat (drop_bit 4 revision AND 0xF))
       @ '' minor='' @ printf_u (unat (revision AND 0xF)) @ '')'' @ newline
     @ ''  Firmware Version     : 0x'' @ printf_X 4 (unat fw_ver) @ newline
     @ ''  Custom Config Version: 0x'' @ printf_X 8 (unat cfg_ver) @ newline"

definition exit_errx :: "fatal \<Rightarrow> 'd world \<Rightarrow> int \<times> string \<times> 'd world" where
  "exit_errx f w = (case f of Errx st msg \<Rightarrow> (st, [], fprintf_stderr w (msg @ newline)))"

text \<open>
  \<open>main\<close> from the declaration of \<open>chip_id\<close> on, the device being open and configured
  (option parsing, \<open>open\<close> and the three configuration \<open>ioctl\<close>s come before and are
  not modelled). \<open>junk i\<close> is what the stack holds where the \<open>i\<close>-th expansion of
  the macro puts its array \<open>_b\<close>. The result is the exit status, the text written to
  standard output, and the world.
\<close>

definition main_probe ::
  "endian \<Rightarrow> config \<Rightarrow> 'd spi_bus \<Rightarrow> 'd world \<Rightarrow> (nat \<Rightarrow> u8 list) \<Rightarrow> int \<times> string \<times> 'd world" where
  "main_probe en cfg bus w junk =
     (case ZL_READ_REG en cfg bus w (junk 0) ''ZL_REG_ID'' ''chip_id'' ZL_REG_ID 2 of
        (Inl f, w1) \<Rightarrow> exit_errx f w1
      | (Inr chip_id, w1) \<Rightarrow>
     (case ZL_READ_REG en cfg bus w1 (junk 1) ''ZL_REG_REVISION'' ''revision''
             ZL_REG_REVISION 2 of
        (Inl f, w2) \<Rightarrow> exit_errx f w2
      | (Inr revision, w2) \<Rightarrow>
     (case ZL_READ_REG en cfg bus w2 (junk 2) ''ZL_REG_FW_VER'' ''fw_ver'' ZL_REG_FW_VER 2 of
        (Inl f, w3) \<Rightarrow> exit_errx f w3
      | (Inr fw_ver, w3) \<Rightarrow>
     (case ZL_READ_REG en cfg bus w3 (junk 3) ''ZL_REG_CUSTOM_CONFIG_VER'' ''cfg_ver''
             ZL_REG_CUSTOM_CONFIG_VER 4 of
        (Inl f, w4) \<Rightarrow> exit_errx f w4
      | (Inr cfg_ver, w4) \<Rightarrow>
          (EXIT_SUCCESS, report cfg chip_id revision fw_ver cfg_ver, w4)))))"

text \<open>The number that a sequence of bytes spells, least significant byte first.\<close>

fun le_nat :: "u8 list \<Rightarrow> nat" where
  "le_nat [] = 0"
| "le_nat (b # bs) = unat b + 256 * le_nat bs"

subsection \<open>Notions for stating the properties\<close>

text \<open>The transfer that \<open>spi_write_u8\<close> submits for a register offset and a value,
  and the one that \<open>spi_read\<close> submits for an offset and a length: the address byte
  and \<open>len\<close> zero bytes out, \<open>len + 1\<close> bytes in.\<close>

definition write_xfer :: "config \<Rightarrow> u8 \<Rightarrow> u8 \<Rightarrow> spi_ioc_transfer" where
  "write_xfer cfg off val =
     \<lparr>tx_buf = [off, val], rx_buf = None, xfer_len = 2,
      xfer_speed_hz = speed_hz cfg, xfer_bits_per_word = bits_per_word cfg, cs_change = 0\<rparr>"

definition read_xfer :: "config \<Rightarrow> u8 \<Rightarrow> nat \<Rightarrow> spi_ioc_transfer" where
  "read_xfer cfg off len =
     \<lparr>tx_buf = off # replicate len 0, rx_buf = Some (replicate (len + 1) 0),
      xfer_len = of_nat (len + 1),
      xfer_speed_hz = speed_hz cfg, xfer_bits_per_word = bits_per_word cfg, cs_change = 0\<rparr>"

text \<open>The next \<open>k\<close> calls of \<open>calloc\<close> succeed.\<close>

definition allocs_ok :: "nat \<Rightarrow> 'd world \<Rightarrow> bool" where
  "allocs_ok k w = list_all (\<lambda>ok. ok) (take k (allocs w))"

text \<open>The transfers submitted between the world \<open>w\<close> and the later world \<open>w'\<close>,
  and that every transfer of a list was reported complete by the \<open>ioctl\<close>, which is
  a return value of at least 1.\<close>

definition new_xfers :: "'d world \<Rightarrow> 'd world \<Rightarrow> (spi_ioc_transfer \<times> int) list" where
  "new_xfers w w' = drop (length (xfers w)) (xfers w')"

definition complete :: "(spi_ioc_transfer \<times> int) list \<Rightarrow> bool" where
  "complete xs = list_all (\<lambda>e. 1 \<le> snd e) xs"

text \<open>The initial values of the static variables (\<open>SPI_MODE_0\<close> is 0), and a world
  in which nothing has happened yet.\<close>

definition default_config :: config where
  "default_config =
     \<lparr>devnode = ''/dev/spidev0.0'', speed_hz = 1000000, mode = 0, bits_per_word = 8,
      debug = 0\<rparr>"

definition fresh :: "'d \<Rightarrow> 'd world" where
  "fresh d = \<lparr>dev = d, xfers = [], allocs = [], stderr = []\<rparr>"

subsection \<open>Devices for testing\<close>

text \<open>
  A paged register file \<open>regs page offset\<close>. The state of the device is the selected
  page. A two-byte write to \<open>ZL_PAGE_SEL\<close> selects the page named by the low nibble
  of the value; a transfer with a receive buffer echoes the address byte and then
  returns the registers of the selected page from that offset on. Every transfer is
  complete: the \<open>ioctl\<close> returns its length.
\<close>

definition stub_bus :: "(u8 \<Rightarrow> u8 \<Rightarrow> u8) \<Rightarrow> u8 spi_bus" where
  "stub_bus regs page xfer =
     (case rx_buf xfer of
        None \<Rightarrow>
          (case tx_buf xfer of
             [a, v] \<Rightarrow> (uint (xfer_len xfer), [], if a = ZL_PAGE_SEL then v AND 0x0F else page)
           | _ \<Rightarrow> (uint (xfer_len xfer), [], page))
      | Some rx \<Rightarrow>
          (case tx_buf xfer of
             [] \<Rightarrow> (0, [], page)
           | a # zs \<Rightarrow>
               (uint (xfer_len xfer),
                a # map (\<lambda>i. regs page (a + of_nat i)) [0..<length zs], page)))"

text \<open>The identity block of the end-to-end scenario: page 0 holds 0E 95 at offset 1,
  00 10 at offset 3, 00 02 at offset 5 and 00 00 00 01 at offset 7.\<close>

definition id_regs :: "u8 \<Rightarrow> u8 \<Rightarrow> u8" where
  "id_regs page off =
     (if page \<noteq> 0 then 0
      else if off = 1 then 0x0E else if off = 2 then 0x95
      else if off = 4 then 0x10 else if off = 6 then 0x02
      else if off = 10 then 0x01 else 0)"

text \<open>A bus that reports one byte transferred whatever was asked, and one whose
  \<open>ioctl\<close> fails.\<close>

definition short_bus :: "unit spi_bus" where
  "short_bus d xfer = (1, [], d)"

definition dead_bus :: "unit spi_bus" where
  "dead_bus d xfer = (- 1, [], d)"


section \<open>Properties\<close>

subsection \<open>Bytes and words\<close>

lemma byte_or_push: "(ucast (b::u8) :: 'a::len word) OR push_bit 8 w = ucast b + push_bit 8 w"
proof -
  have "(ucast b :: 'a word) AND push_bit 8 w = 0"
    by (rule bit_eqI) (auto simp add: bit_simps dest: bit_imp_le_length)
  then show ?thesis by (simp add: disjunctive_add_eq_or)
qed

lemma unat_byte_plus_push:
  "unat (ucast (b::u8) + push_bit n w :: 'a::len word) = (unat b + 2 ^ n * unat w) mod 2 ^ LENGTH('a)"
proof -
  have "unat (ucast b + push_bit n w :: 'a word)
        = (unat (ucast b :: 'a word) + unat (push_bit n w)) mod 2 ^ LENGTH('a)"
    by (simp only: unat_word_ariths)
  also have "\<dots> = (take_bit LENGTH('a) (unat b) + take_bit LENGTH('a) (push_bit n (unat w)))
                     mod 2 ^ LENGTH('a)"
    by (simp only: unsigned_ucast_eq unsigned_push_bit_eq)
  also have "\<dots> = (unat b + 2 ^ n * unat w) mod 2 ^ LENGTH('a)"
    by (simp add: take_bit_eq_mod push_bit_eq_mult mod_simps mult.commute)
  finally show ?thesis .
qed

lemma unat_from_le: "unat (from_le bs :: 'a::len word) = le_nat bs mod 2 ^ LENGTH('a)"
proof (induction bs)
  case Nil
  then show ?case by simp
next
  case (Cons b bs)
  have "unat (from_le (b # bs) :: 'a word) = (unat b + 2 ^ 8 * unat (from_le bs :: 'a word)) mod 2 ^ LENGTH('a)"
    unfolding from_le.simps byte_or_push by (rule unat_byte_plus_push)
  also have "\<dots> = (unat b + 256 * (le_nat bs mod 2 ^ LENGTH('a))) mod 2 ^ LENGTH('a)"
    by (simp add: Cons.IH)
  also have "\<dots> = (unat b + 256 * le_nat bs) mod 2 ^ LENGTH('a)"
    by (metis mod_add_right_eq mod_mult_right_eq)
  finally show ?case by simp
qed

lemma bswap16_bytes: "bswap16 (from_le [b0, b1]) = from_le [b1, b0]"
  by (rule bit_eqI) (auto simp add: bswap16_def bit_simps dest: bit_imp_le_length)

lemma m8: "(0xFF00 :: u32) = push_bit 8 (mask 8)"
  by (simp add: mask_eq_exp_minus_1)

lemma byte_bit_high: "8 \<le> m \<Longrightarrow> bit (b :: u8) m = False"
  using bit_imp_le_length [of b m] by auto

lemma bswap32_bytes: "bswap32 (from_le [b0, b1, b2, b3]) = from_le [b3, b2, b1, b0]"
proof (rule bit_eqI)
  fix n
  assume "possible_bit TYPE(u32) n"
  then have n32: "n < 32" by (simp add: possible_bit_def)
  consider "n < 8" | "8 \<le> n" "n < 16" | "16 \<le> n" "n < 24" | "24 \<le> n" "n < 32"
    using n32 by linarith
  then show "bit (bswap32 (from_le [b0, b1, b2, b3])) n = bit (from_le [b3, b2, b1, b0] :: u32) n"
  proof cases
    case 1
    then show ?thesis
      unfolding bswap32_def m8 by (auto simp add: bit_simps byte_bit_high)
  next
    case 2
    then show ?thesis
      unfolding bswap32_def m8 by (auto simp add: bit_simps byte_bit_high)
  next
    case 3
    then show ?thesis
      unfolding bswap32_def m8 by (auto simp add: bit_simps byte_bit_high)
  next
    case 4
    then show ?thesis
      unfolding bswap32_def m8 by (auto simp add: bit_simps byte_bit_high)
  qed
qed

lemma ntohs_bytes: "ntohs en (object_value en [b0, b1]) = from_le [b1, b0]"
proof (cases en)
  case LittleEndian
  then show ?thesis by (simp only: ntohs_def object_value_def endian.case bswap16_bytes)
next
  case BigEndian
  have "rev [b0, b1] = [b1, b0]" by simp
  with BigEndian show ?thesis by (simp only: ntohs_def object_value_def endian.case)
qed

lemma ntohl_bytes: "ntohl en (object_value en [b0, b1, b2, b3]) = from_le [b3, b2, b1, b0]"
proof (cases en)
  case LittleEndian
  then show ?thesis by (simp only: ntohl_def object_value_def endian.case bswap32_bytes)
next
  case BigEndian
  have "rev [b0, b1, b2, b3] = [b3, b2, b1, b0]" by simp
  with BigEndian show ?thesis by (simp only: ntohl_def object_value_def endian.case)
qed

lemma unat_ucast_u8: "unat (ucast (x :: u16) :: u8) = unat x mod 256"
proof -
  have "unat (ucast x :: u8) = take_bit LENGTH(8) (unat x)"
    by (rule unsigned_ucast_eq)
  then show ?thesis by (simp add: take_bit_eq_mod)
qed

lemma unat_drop7: "unat (drop_bit 7 (x :: u16)) = unat x div 128"
proof -
  have "unat (drop_bit 7 x) = drop_bit 7 (unat x)"
    by (rule unat_drop_bit_eq)
  then show ?thesis by (simp add: drop_bit_eq_div)
qed

lemma unat_and_mask: "unat ((x :: 'a::len word) AND mask n) = unat x mod 2 ^ n"
proof -
  have "unat (x AND mask n) = unat (take_bit n x)"
    by (simp only: take_bit_eq_mask)
  also have "\<dots> = take_bit n (unat x)"
    by (rule unsigned_take_bit_eq)
  finally show ?thesis by (simp add: take_bit_eq_mod)
qed

lemma m4: "(0x0F :: u16) = mask 4"
  by (simp add: mask_eq_exp_minus_1)

lemma m7: "(0x7F :: u16) = mask 7"
  by (simp add: mask_eq_exp_minus_1)

lemma page_unat: "unat (reg_page reg) = (unat reg div 128) mod 16"
proof -
  have "unat (reg_page reg) = unat (drop_bit 7 reg AND mask 4) mod 256"
    unfolding reg_page_def m4 by (rule unat_ucast_u8)
  also have "\<dots> = (unat (drop_bit 7 reg) mod 2 ^ 4) mod 256"
    by (simp only: unat_and_mask)
  also have "\<dots> = (unat reg div 128) mod 16"
    by (simp only: unat_drop7) simp
  finally show ?thesis .
qed

lemma off_unat: "unat (reg_offset reg) = unat reg mod 128"
proof -
  have "unat (reg_offset reg) = unat (reg AND mask 7) mod 256"
    unfolding reg_offset_def m7 by (rule unat_ucast_u8)
  also have "\<dots> = (unat reg mod 2 ^ 7) mod 256"
    by (simp only: unat_and_mask)
  also have "\<dots> = unat reg mod 128"
    by simp
  finally show ?thesis .
qed

subsection \<open>The name lookup\<close>

lemma lookup_miss: "i \<notin> id' ` set es \<Longrightarrow> lookup_name_loop es i = ''Unknown''"
  by (induction es) auto

lemma lookup_hit:
  "distinct (map id' es) \<Longrightarrow> e \<in> set es \<Longrightarrow> lookup_name_loop es (id' e) = name e"
  by (induction es) auto

text \<open>
  Claim C7. For every 16-bit chip ID, \<open>lookup_name\<close> returns the name of the table
  entry exactly when the ID is one of the three listed IDs (0x0E95, 0x1E95, 0x2E95),
  and "Unknown" for every other ID: the match is equality of the whole ID.
\<close>

theorem lookup_name_exact:
  "lookup_name i =
     (if i = 0x0E95 then ''ZL3073x (A)''
      else if i = 0x1E95 then ''ZL3073x (B)''
      else if i = 0x2E95 then ''ZL3073x (C)'' else ''Unknown'')
   \<and> (\<forall>e \<in> set known_ids. lookup_name (id' e) = name e)
   \<and> id' ` set known_ids = {0x0E95, 0x1E95, 0x2E95}
   \<and> (i \<notin> id' ` set known_ids \<longrightarrow> lookup_name i = ''Unknown'')
   \<and> (lookup_name i = ''Unknown'') = (i \<notin> {0x0E95, 0x1E95, 0x2E95})"
proof -
  have d: "distinct (map id' known_ids)"
    by (simp add: known_ids_def)
  have hit: "\<forall>e \<in> set known_ids. lookup_name (id' e) = name e"
    unfolding lookup_name_def using lookup_hit [OF d] by blast
  have miss: "i \<notin> id' ` set known_ids \<longrightarrow> lookup_name i = ''Unknown''"
    unfolding lookup_name_def using lookup_miss by blast
  have ids: "id' ` set known_ids = {0x0E95, 0x1E95, 0x2E95}"
    by (simp add: known_ids_def)
  have eq: "lookup_name i =
     (if i = 0x0E95 then ''ZL3073x (A)''
      else if i = 0x1E95 then ''ZL3073x (B)''
      else if i = 0x2E95 then ''ZL3073x (C)'' else ''Unknown'')"
    by (simp add: lookup_name_def known_ids_def)
  have unk: "(lookup_name i = ''Unknown'') = (i \<notin> {0x0E95, 0x1E95, 0x2E95})"
    by (simp add: eq)
  from eq hit ids miss unk show ?thesis by blast
qed

theorem lookup_name_exact_witness:
  "lookup_name 0x1E95 = ''ZL3073x (B)'' \<and> lookup_name 0xFFFF = ''Unknown''
   \<and> lookup_name 0x0E94 = ''Unknown''"
  using lookup_name_exact [of "0x1E95"] lookup_name_exact [of "0xFFFF"]
    lookup_name_exact [of "0x0E94"]
  by simp

subsection \<open>The address split\<close>

text \<open>
  Claim C3. For every logical register address \<open>reg\<close> in [0, 0x7FF], the page and
  offset that \<open>zl_read_reg\<close> computes are \<open>reg >> 7\<close> and \<open>reg & 0x7F\<close>, and
  \<open>page * 128 + offset = reg\<close>.
\<close>

theorem reg_split_roundtrip:
  assumes "reg \<le> 0x7FF"
  shows "reg_page reg = ucast (drop_bit 7 reg)
       \<and> reg_offset reg = ucast (reg AND 0x7F)
       \<and> unat (reg_page reg) = unat reg div 128
       \<and> unat (reg_offset reg) = unat reg mod 128
       \<and> unat (reg_page reg) * ZL_PAGE_SIZE + unat (reg_offset reg) = unat reg"
proof -
  from assms have lt: "unat reg < 2048"
    by (simp add: word_le_nat_alt)
  then have small: "unat reg div 128 < 16"
    by simp
  have p: "unat (reg_page reg) = unat reg div 128"
    using small by (simp add: page_unat)
  have "unat (ucast (drop_bit 7 reg) :: u8) = unat (drop_bit 7 reg) mod 256"
    by (rule unat_ucast_u8)
  also have "\<dots> = unat reg div 128"
    using small by (simp only: unat_drop7) simp
  finally have "unat (reg_page reg) = unat (ucast (drop_bit 7 reg) :: u8)"
    using p by simp
  then have a: "reg_page reg = ucast (drop_bit 7 reg)"
    by (rule word_unat_eq_iff [THEN iffD2])
  have b: "reg_offset reg = ucast (reg AND 0x7F)"
    by (simp add: reg_offset_def)
  have c: "unat (reg_page reg) * ZL_PAGE_SIZE + unat (reg_offset reg) = unat reg"
    by (simp add: p off_unat ZL_PAGE_SIZE_def)
  from a b p off_unat [of reg] c show ?thesis
    by (intro conjI)
qed

theorem reg_split_roundtrip_witness:
  "(0x2A5 :: u16) \<le> 0x7FF \<and> reg_page 0x2A5 = 5 \<and> reg_offset 0x2A5 = 0x25
   \<and> unat (reg_page 0x2A5) * ZL_PAGE_SIZE + unat (reg_offset 0x2A5) = 0x2A5"
proof -
  have h: "(0x2A5 :: u16) \<le> 0x7FF" by simp
  show ?thesis using h reg_split_roundtrip [OF h] by (simp add: ZL_PAGE_SIZE_def)
qed

subsection \<open>What each function does to the world\<close>

lemma hexdump_proj [simp]:
  "dev (hexdump w p b n) = dev w" "xfers (hexdump w p b n) = xfers w"
  "allocs (hexdump w p b n) = allocs w"
  by (simp_all add: hexdump_def fprintf_stderr_def)

lemma fprintf_proj [simp]:
  "dev (fprintf_stderr w s) = dev w" "xfers (fprintf_stderr w s) = xfers w"
  "allocs (fprintf_stderr w s) = allocs w"
  by (simp_all add: fprintf_stderr_def)

lemma spi_write_u8_fst:
  "fst (spi_write_u8 cfg bus w a v) = (if fst (bus (dev w) (write_xfer cfg a v)) < 1 then - 1 else 0)"
  by (simp add: spi_write_u8_def ioctl_SPI_IOC_MESSAGE_def write_xfer_def Let_def split: prod.splits)

lemma spi_write_u8_xfers:
  "xfers (snd (spi_write_u8 cfg bus w a v))
   = xfers w @ [(write_xfer cfg a v, fst (bus (dev w) (write_xfer cfg a v)))]"
  by (simp add: spi_write_u8_def ioctl_SPI_IOC_MESSAGE_def write_xfer_def Let_def split: prod.splits)

lemma spi_write_u8_dev:
  "dev (snd (spi_write_u8 cfg bus w a v)) = snd (snd (bus (dev w) (write_xfer cfg a v)))"
  by (simp add: spi_write_u8_def ioctl_SPI_IOC_MESSAGE_def write_xfer_def Let_def split: prod.splits)

lemma spi_write_u8_allocs:
  "allocs (snd (spi_write_u8 cfg bus w a v)) = allocs w"
  by (simp add: spi_write_u8_def ioctl_SPI_IOC_MESSAGE_def write_xfer_def Let_def split: prod.splits)

lemma calloc_eq:
  "calloc w 1 n = ((if allocs_ok 1 w then Some (replicate n 0) else None), w\<lparr>allocs := tl (allocs w)\<rparr>)"
  by (cases "allocs w") (simp_all add: calloc_def allocs_ok_def)

lemma tx_first: "(replicate (Suc n) (0::u8))[0 := a] = a # replicate n 0"
  by simp

lemma spi_read_invalid:
  "len = 0 \<or> 255 < len \<Longrightarrow> spi_read cfg bus w off buf len = (- EINVAL, buf, w)"
  by (simp add: spi_read_def)

lemma spi_read_nomem:
  "0 < len \<Longrightarrow> len \<le> 255 \<Longrightarrow> \<not> allocs_ok 2 w \<Longrightarrow>
   spi_read cfg bus w off buf len = (- ENOMEM, buf, w\<lparr>allocs := drop 2 (allocs w)\<rparr>)"
  apply (cases "allocs w")
   apply (simp add: allocs_ok_def)
  subgoal for a as
    apply (cases as)
    apply (auto simp add: spi_read_def calloc_def allocs_ok_def split: list.splits option.splits)
    done
  done


lemma allocs_ok_2:
  "allocs_ok 2 w = (allocs_ok 1 w \<and> allocs_ok 1 (w\<lparr>allocs := tl (allocs w)\<rparr>))"
proof (cases "allocs w")
  case Nil
  then show ?thesis by (simp add: allocs_ok_def)
next
  case (Cons a as)
  then show ?thesis by (cases as) (auto simp add: allocs_ok_def numeral_2_eq_2)
qed

lemma drop_2_tl: "tl (tl xs) = drop 2 xs"
  by (simp add: drop_Suc numeral_2_eq_2 tl_drop)

lemma spi_read_ok:
  assumes "0 < len" "len \<le> 255" "allocs_ok 2 w"
    and bus: "bus (dev w) (read_xfer cfg off len) = (ret, data, d)"
  shows "fst (spi_read cfg bus w off buf len) = (if ret < 1 then - 1 else 0)"
    and "fst (snd (spi_read cfg bus w off buf len))
         = (if ret < 1 then buf
            else memcpy buf (drop 1 (received data (replicate (len + 1) 0))) len)"
    and "dev (snd (snd (spi_read cfg bus w off buf len))) = d"
    and "xfers (snd (snd (spi_read cfg bus w off buf len)))
         = xfers w @ [(read_xfer cfg off len, ret)]"
    and "allocs (snd (snd (spi_read cfg bus w off buf len))) = drop 2 (allocs w)"
proof -
  from assms(3) have a1: "allocs_ok 1 w" and a2: "allocs_ok 1 (w\<lparr>allocs := tl (allocs w)\<rparr>)"
    by (simp_all add: allocs_ok_2)
  have r: "spi_read cfg bus w off buf len =
      (if ret < 1 then (- 1, buf, w\<lparr>allocs := tl (tl (allocs w)), dev := d,
                 xfers := xfers w @ [(read_xfer cfg off len, ret)]\<rparr>)
       else (0, memcpy buf (drop 1 (received data (replicate (len + 1) 0))) len,
             (if debug cfg > 0
              then hexdump (w\<lparr>allocs := tl (tl (allocs w)), dev := d,
                 xfers := xfers w @ [(read_xfer cfg off len, ret)]\<rparr>)
                     (snprintf 64 (''SPI_R: off=0x'' @ printf_X 2 (unat off) @ '' rx=''))
                     (drop 1 (received data (replicate (len + 1) 0))) len
              else w\<lparr>allocs := tl (tl (allocs w)), dev := d,
                 xfers := xfers w @ [(read_xfer cfg off len, ret)]\<rparr>)))"
    using assms(1,2) a1 a2 bus
    unfolding spi_read_def calloc_eq
    by (simp add: ioctl_SPI_IOC_MESSAGE_def read_xfer_def Let_def)
  show "fst (spi_read cfg bus w off buf len) = (if ret < 1 then - 1 else 0)"
    by (simp add: r)
  show "fst (snd (spi_read cfg bus w off buf len))
         = (if ret < 1 then buf
            else memcpy buf (drop 1 (received data (replicate (len + 1) 0))) len)"
    by (simp add: r)
  show "dev (snd (snd (spi_read cfg bus w off buf len))) = d"
    by (simp add: r)
  show "xfers (snd (snd (spi_read cfg bus w off buf len)))
         = xfers w @ [(read_xfer cfg off len, ret)]"
    by (simp add: r)
  show "allocs (snd (snd (spi_read cfg bus w off buf len))) = drop 2 (allocs w)"
    by (simp add: r drop_2_tl)
qed

lemma zl_set_page_bad: "0x0F < page \<Longrightarrow> zl_set_page cfg bus w page = (- EINVAL, w)"
  by (simp add: zl_set_page_def)

lemma zl_set_page_ok:
  assumes "page \<le> 0x0F"
  shows "fst (zl_set_page cfg bus w page)
         = (if fst (bus (dev w) (write_xfer cfg ZL_PAGE_SEL (page AND 0x0F))) < 1 then - 1 else 0)"
    and "xfers (snd (zl_set_page cfg bus w page))
         = xfers w @ [(write_xfer cfg ZL_PAGE_SEL (page AND 0x0F),
                       fst (bus (dev w) (write_xfer cfg ZL_PAGE_SEL (page AND 0x0F))))]"
    and "dev (snd (zl_set_page cfg bus w page))
         = snd (snd (bus (dev w) (write_xfer cfg ZL_PAGE_SEL (page AND 0x0F))))"
    and "allocs (snd (zl_set_page cfg bus w page)) = allocs w"
  using assms
  by (simp_all add: zl_set_page_def Let_def spi_write_u8_fst spi_write_u8_xfers
        spi_write_u8_dev spi_write_u8_allocs not_less [symmetric])


lemma m4': "(0x0F :: u8) = mask 4"
  by (simp add: mask_eq_exp_minus_1)

lemma m11: "(0x7FF :: u16) = mask 11"
  by (simp add: mask_eq_exp_minus_1)

lemma nibble_id: "(page :: u8) \<le> 0x0F \<Longrightarrow> page AND 0x0F = page"
proof -
  assume "page \<le> 0x0F"
  then have "unat page < 16" by (simp add: word_le_nat_alt)
  then have "unat (page AND mask 4) = unat page"
    by (simp only: unat_and_mask) simp
  then show ?thesis
    unfolding m4' by (rule word_unat_eq_iff [THEN iffD2])
qed

lemma reg_page_le: "reg_page reg \<le> 0x0F"
proof -
  have "unat (reg_page reg) < 16" by (simp add: page_unat)
  then show ?thesis by (simp add: word_le_nat_alt)
qed

lemma page_arith: "(a::nat) mod 2048 div 128 mod 16 = a div 128 mod 16"
proof -
  have "a mod 2048 = a mod (128 * 16)" by simp
  also have "\<dots> = 128 * (a div 128 mod 16) + a mod 128" by (rule mod_mult2_eq)
  finally show ?thesis by simp
qed

lemma off_arith: "(a::nat) mod 2048 mod 128 = a mod 128"
  by (simp add: mod_mod_cancel)

lemma reg_page_alias: "reg_page (reg AND 0x7FF) = reg_page reg"
proof -
  have "unat (reg_page (reg AND mask 11)) = (unat reg mod 2048 div 128) mod 16"
    by (simp only: page_unat unat_and_mask) simp
  also have "\<dots> = (unat reg div 128) mod 16"
    by (rule page_arith)
  finally have "unat (reg_page (reg AND mask 11)) = unat (reg_page reg)"
    by (simp only: page_unat)
  then show ?thesis
    unfolding m11 by (rule word_unat_eq_iff [THEN iffD2])
qed

lemma reg_offset_alias: "reg_offset (reg AND 0x7FF) = reg_offset reg"
proof -
  have "unat (reg_offset (reg AND mask 11)) = (unat reg mod 2048) mod 128"
    by (simp only: off_unat unat_and_mask) simp
  also have "\<dots> = unat reg mod 128"
    by (rule off_arith)
  finally have "unat (reg_offset (reg AND mask 11)) = unat (reg_offset reg)"
    by (simp only: off_unat)
  then show ?thesis
    unfolding m11 by (rule word_unat_eq_iff [THEN iffD2])
qed

lemma length_received: "length (received data rx) = length rx"
  by (simp add: received_def)

subsection \<open>Page selection\<close>

text \<open>
  Claim C6. For every page above 15, \<open>zl_set_page\<close> returns \<open>-EINVAL\<close> and leaves the
  world as it was: no transfer is submitted. For every page in [0, 15] it submits
  exactly one transfer, the write of the single byte \<open>page & 0x0F\<close> (which is the
  page) to the page-select register 0x7F, and returns what \<open>spi_write_u8\<close> returns.
\<close>

theorem zl_set_page_range:
  "(0x0F < page \<longrightarrow> zl_set_page cfg bus w page = (- EINVAL, w))
   \<and> (page \<le> 0x0F \<longrightarrow>
        page AND 0x0F = page
        \<and> xfers (snd (zl_set_page cfg bus w page))
            = xfers w @
              [(\<lparr>tx_buf = [0x7F, page AND 0x0F], rx_buf = None, xfer_len = 2,
                 xfer_speed_hz = speed_hz cfg, xfer_bits_per_word = bits_per_word cfg,
                 cs_change = 0\<rparr>,
                fst (bus (dev w)
                       \<lparr>tx_buf = [0x7F, page AND 0x0F], rx_buf = None, xfer_len = 2,
                        xfer_speed_hz = speed_hz cfg,
                        xfer_bits_per_word = bits_per_word cfg, cs_change = 0\<rparr>))]
        \<and> fst (zl_set_page cfg bus w page)
            = (if fst (bus (dev w)
                         \<lparr>tx_buf = [0x7F, page AND 0x0F], rx_buf = None, xfer_len = 2,
                          xfer_speed_hz = speed_hz cfg,
                          xfer_bits_per_word = bits_per_word cfg, cs_change = 0\<rparr>) < 1
               then - 1 else 0))"
proof (intro conjI impI)
  assume "0x0F < page"
  then show "zl_set_page cfg bus w page = (- EINVAL, w)"
    by (rule zl_set_page_bad)
next
  assume le: "page \<le> 0x0F"
  show "page AND 0x0F = page"
    using le by (rule nibble_id)
  have x: "\<lparr>tx_buf = [0x7F, page AND 0x0F], rx_buf = None, xfer_len = 2,
            xfer_speed_hz = speed_hz cfg, xfer_bits_per_word = bits_per_word cfg,
            cs_change = 0\<rparr> = write_xfer cfg ZL_PAGE_SEL (page AND 0x0F)"
    by (simp add: write_xfer_def ZL_PAGE_SEL_def)
  show "xfers (snd (zl_set_page cfg bus w page))
            = xfers w @
              [(\<lparr>tx_buf = [0x7F, page AND 0x0F], rx_buf = None, xfer_len = 2,
                 xfer_speed_hz = speed_hz cfg, xfer_bits_per_word = bits_per_word cfg,
                 cs_change = 0\<rparr>,
                fst (bus (dev w)
                       \<lparr>tx_buf = [0x7F, page AND 0x0F], rx_buf = None, xfer_len = 2,
                        xfer_speed_hz = speed_hz cfg,
                        xfer_bits_per_word = bits_per_word cfg, cs_change = 0\<rparr>))]"
    unfolding x by (rule zl_set_page_ok(2) [OF le])
  show "fst (zl_set_page cfg bus w page)
            = (if fst (bus (dev w)
                         \<lparr>tx_buf = [0x7F, page AND 0x0F], rx_buf = None, xfer_len = 2,
                          xfer_speed_hz = speed_hz cfg,
                          xfer_bits_per_word = bits_per_word cfg, cs_change = 0\<rparr>) < 1
               then - 1 else 0)"
    unfolding x by (rule zl_set_page_ok(1) [OF le])
qed

lemma stub_write:
  "stub_bus regs p (write_xfer cfg ZL_PAGE_SEL v) = (2, [], v AND 0x0F)"
  by (simp add: stub_bus_def write_xfer_def)

theorem zl_set_page_range_witness:
  "zl_set_page default_config (stub_bus id_regs) (fresh 0) 0x10 = (- EINVAL, fresh 0)
   \<and> xfers (snd (zl_set_page default_config (stub_bus id_regs) (fresh 0) 0x03))
       = [(\<lparr>tx_buf = [0x7F, 0x03], rx_buf = None, xfer_len = 2, xfer_speed_hz = 1000000,
            xfer_bits_per_word = 8, cs_change = 0\<rparr>, 2)]
   \<and> fst (zl_set_page default_config (stub_bus id_regs) (fresh 0) 0x03) = 0"
  using zl_set_page_range [of "0x10" default_config "stub_bus id_regs" "fresh 0"]
    zl_set_page_range [of "0x03" default_config "stub_bus id_regs" "fresh 0"]
  by (simp add: default_config_def fresh_def stub_bus_def ZL_PAGE_SEL_def)

subsection \<open>The output buffer of \<open>spi_read\<close>\<close>

text \<open>
  Claim C10. Whenever \<open>spi_read\<close> returns an error (\<open>-EINVAL\<close> for a length of 0 or
  above 255, \<open>-ENOMEM\<close> when a scratch buffer cannot be allocated, \<open>-1\<close> when the
  \<open>ioctl\<close> returns less than 1), the caller's buffer is left as it was. It is written
  only when the transfer has succeeded: then its first \<open>len\<close> bytes are the received
  bytes 1 to \<open>len\<close>, the echoed address byte 0 being dropped.
\<close>

theorem spi_read_output_buffer:
  assumes "spi_read cfg bus w off buf len = (r, buf', w')"
  shows "(r \<noteq> 0 \<longrightarrow> buf' = buf)
       \<and> (r = 0 \<or> r = - 1 \<or> r = - EINVAL \<or> r = - ENOMEM)
       \<and> (r = - EINVAL) = (len = 0 \<or> 255 < len)
       \<and> (r = - ENOMEM) = (0 < len \<and> len \<le> 255 \<and> \<not> allocs_ok 2 w)
       \<and> (r = - EINVAL \<or> r = - ENOMEM \<longrightarrow> xfers w' = xfers w)
       \<and> (r = - 1 \<longrightarrow>
            xfers w' = xfers w @ [(read_xfer cfg off len, fst (bus (dev w) (read_xfer cfg off len)))]
            \<and> fst (bus (dev w) (read_xfer cfg off len)) < 1)
       \<and> (r = 0 \<longrightarrow>
            (\<exists>ret data d.
               bus (dev w) (read_xfer cfg off len) = (ret, data, d) \<and> 1 \<le> ret
               \<and> xfers w' = xfers w @ [(read_xfer cfg off len, ret)]
               \<and> length (drop 1 (received data (replicate (len + 1) 0))) = len
               \<and> buf' = take len (drop 1 (received data (replicate (len + 1) 0)))
                         @ drop len buf))"
proof -
  consider (inval) "len = 0 \<or> 255 < len"
    | (nomem) "0 < len" "len \<le> 255" "\<not> allocs_ok 2 w"
    | (io) "0 < len" "len \<le> 255" "allocs_ok 2 w"
    by linarith
  then show ?thesis
  proof cases
    case inval
    then have "spi_read cfg bus w off buf len = (- EINVAL, buf, w)"
      by (rule spi_read_invalid)
    with assms inval show ?thesis
      by (auto simp add: EINVAL_def ENOMEM_def)
  next
    case nomem
    then have "spi_read cfg bus w off buf len = (- ENOMEM, buf, w\<lparr>allocs := drop 2 (allocs w)\<rparr>)"
      by (rule spi_read_nomem)
    with assms nomem show ?thesis
      by (auto simp add: EINVAL_def ENOMEM_def)
  next
    case io
    obtain ret data d where bus: "bus (dev w) (read_xfer cfg off len) = (ret, data, d)"
      by (cases "bus (dev w) (read_xfer cfg off len)") auto
    note ok = spi_read_ok [where bus = bus and w = w and cfg = cfg and off = off and len = len
        and buf = buf, OF io bus]
    from assms ok have r: "r = (if ret < 1 then - 1 else 0)"
      and b: "buf' = (if ret < 1 then buf
            else memcpy buf (drop 1 (received data (replicate (len + 1) 0))) len)"
      and x: "xfers w' = xfers w @ [(read_xfer cfg off len, ret)]"
      by simp_all
    have l: "length (drop 1 (received data (replicate (len + 1) 0))) = len"
      by (simp add: length_received)
    show ?thesis
    proof (cases "ret < 1")
      case True
      with r b x bus io show ?thesis
        by (simp add: EINVAL_def ENOMEM_def)
    next
      case False
      with r b x bus io l show ?thesis
        by (simp add: EINVAL_def ENOMEM_def memcpy_def)
    qed
  qed
qed

lemma stub_read:
  "stub_bus regs p (read_xfer cfg a n)
   = (uint (word_of_nat (n + 1) :: u32), a # map (\<lambda>i. regs p (a + of_nat i)) [0..<n], p)"
  by (simp add: stub_bus_def read_xfer_def)

theorem spi_read_output_buffer_witness:
  "spi_read default_config (stub_bus id_regs) (fresh 0) 1 [7, 7, 7] 2
     = (0, [0x0E, 0x95, 7],
        \<lparr>dev = 0, xfers = [(read_xfer default_config 1 2, 3)], allocs = [], stderr = []\<rparr>)
   \<and> spi_read default_config dead_bus (fresh ()) 1 [7, 7, 7] 2
     = (- 1, [7, 7, 7],
        \<lparr>dev = (), xfers = [(read_xfer default_config 1 2, - 1)], allocs = [], stderr = []\<rparr>)"
proof -
  have a: "spi_read default_config (stub_bus id_regs) (fresh 0) 1 [7, 7, 7] 2
     = (0, [0x0E, 0x95, 7],
        \<lparr>dev = 0, xfers = [(read_xfer default_config 1 2, 3)], allocs = [], stderr = []\<rparr>)"
    by code_simp
  have b: "spi_read default_config dead_bus (fresh ()) 1 [7, 7, 7] 2
     = (- 1, [7, 7, 7],
        \<lparr>dev = (), xfers = [(read_xfer default_config 1 2, - 1)], allocs = [], stderr = []\<rparr>)"
    by code_simp
  from spi_read_output_buffer [OF a] spi_read_output_buffer [OF b] a b show ?thesis
    by simp
qed

lemma zl_read_reg_unfold:
  "zl_read_reg cfg bus w reg buf len =
     (if fst (zl_set_page cfg bus w (reg_page reg)) \<noteq> 0
      then (fst (zl_set_page cfg bus w (reg_page reg)), buf,
            snd (zl_set_page cfg bus w (reg_page reg)))
      else spi_read cfg bus (snd (zl_set_page cfg bus w (reg_page reg))) (reg_offset reg) buf len)"
  by (simp add: zl_read_reg_def Let_def split: prod.splits)

subsection \<open>Reads with an invalid length\<close>

text \<open>
  Claim C2, amended. For a length of 0 or above 255, \<open>spi_read\<close> returns \<open>-EINVAL\<close>
  with the world unchanged, so it submits no read transfer. \<open>zl_read_reg\<close> selects
  the page before it calls \<open>spi_read\<close>: for such a length and every address it
  submits exactly one transfer, the page-select write, and returns \<open>-EINVAL\<close> when
  that write succeeded and \<open>-1\<close> when it failed; the buffer is unchanged.
\<close>

theorem invalid_length_after_page_select:
  assumes "len = 0 \<or> 255 < len"
  shows "spi_read cfg bus w off buf len = (- EINVAL, buf, w)
       \<and> zl_read_reg cfg bus w reg buf len
           = ((if fst (bus (dev w) (write_xfer cfg ZL_PAGE_SEL (reg_page reg))) < 1
               then - 1 else - EINVAL),
              buf, snd (zl_set_page cfg bus w (reg_page reg)))
       \<and> xfers (snd (snd (zl_read_reg cfg bus w reg buf len)))
           = xfers w @ [(write_xfer cfg ZL_PAGE_SEL (reg_page reg),
                         fst (bus (dev w) (write_xfer cfg ZL_PAGE_SEL (reg_page reg))))]"
proof -
  have sr: "\<And>w' off'. spi_read cfg bus w' off' buf len = (- EINVAL, buf, w')"
    using assms by (rule spi_read_invalid)
  have n: "reg_page reg AND 0x0F = reg_page reg"
    by (rule nibble_id [OF reg_page_le])
  have f: "fst (zl_set_page cfg bus w (reg_page reg))
           = (if fst (bus (dev w) (write_xfer cfg ZL_PAGE_SEL (reg_page reg))) < 1 then - 1 else 0)"
    using zl_set_page_ok(1) [OF reg_page_le, of cfg bus w reg] by (simp only: n)
  have x: "xfers (snd (zl_set_page cfg bus w (reg_page reg)))
           = xfers w @ [(write_xfer cfg ZL_PAGE_SEL (reg_page reg),
                         fst (bus (dev w) (write_xfer cfg ZL_PAGE_SEL (reg_page reg))))]"
    using zl_set_page_ok(2) [OF reg_page_le, of cfg bus w reg] by (simp only: n)
  have z: "zl_read_reg cfg bus w reg buf len
           = ((if fst (bus (dev w) (write_xfer cfg ZL_PAGE_SEL (reg_page reg))) < 1
               then - 1 else - EINVAL),
              buf, snd (zl_set_page cfg bus w (reg_page reg)))"
    by (simp add: zl_read_reg_unfold sr f)
  have "xfers (snd (snd (zl_read_reg cfg bus w reg buf len)))
           = xfers w @ [(write_xfer cfg ZL_PAGE_SEL (reg_page reg),
                         fst (bus (dev w) (write_xfer cfg ZL_PAGE_SEL (reg_page reg))))]"
    by (simp add: z x)
  with sr z show ?thesis by (intro conjI)
qed

theorem invalid_length_after_page_select_witness:
  "zl_read_reg default_config (stub_bus id_regs) (fresh 0) ZL_REG_ID (replicate 8 0) 0
     = (- EINVAL, replicate 8 0,
        \<lparr>dev = 0, xfers = [(write_xfer default_config ZL_PAGE_SEL 0, 2)], allocs = [],
         stderr = []\<rparr>)
   \<and> spi_read default_config (stub_bus id_regs) (fresh 0) 1 (replicate 8 0) 256
     = (- EINVAL, replicate 8 0, fresh 0)"
proof -
  have h: "(0::nat) = 0 \<or> 255 < (0::nat)" by simp
  have h2: "(256::nat) = 0 \<or> 255 < (256::nat)" by simp
  have p: "reg_page ZL_REG_ID = 0" by code_simp
  have s: "snd (zl_set_page default_config (stub_bus id_regs) (fresh 0) 0)
           = \<lparr>dev = 0, xfers = [(write_xfer default_config ZL_PAGE_SEL 0, 2)], allocs = [],
         stderr = []\<rparr>" by code_simp
  from invalid_length_after_page_select [OF h, of default_config "stub_bus id_regs" "fresh 0" 1 "replicate 8 0" ZL_REG_ID]
    invalid_length_after_page_select [OF h2, of default_config "stub_bus id_regs" "fresh 0" 1 "replicate 8 0" ZL_REG_ID]
  show ?thesis
    by (simp add: p s stub_write)
qed

text \<open>
  Claim C2 as stated (no page-select write for an invalid length) fails: on the
  register-file device, \<open>zl_read_reg\<close> with length 0 returns after the page-select
  write has been submitted.
\<close>

theorem zl_read_reg_invalid_length_counterexample:
  "\<not> (\<forall>len. (len = 0 \<or> 255 < len) \<longrightarrow>
         fst (zl_read_reg default_config (stub_bus id_regs) (fresh 0) ZL_REG_ID
                (replicate 8 0) len) = - EINVAL
         \<and> xfers (snd (snd (zl_read_reg default_config (stub_bus id_regs) (fresh 0) ZL_REG_ID
                               (replicate 8 0) len)))
           = xfers (fresh 0 :: u8 world))"
proof
  assume "\<forall>len. (len = 0 \<or> 255 < len) \<longrightarrow>
         fst (zl_read_reg default_config (stub_bus id_regs) (fresh 0) ZL_REG_ID
                (replicate 8 0) len) = - EINVAL
         \<and> xfers (snd (snd (zl_read_reg default_config (stub_bus id_regs) (fresh 0) ZL_REG_ID
                               (replicate 8 0) len)))
           = xfers (fresh 0 :: u8 world)"
  then have "xfers (snd (snd (zl_read_reg default_config (stub_bus id_regs) (fresh 0) ZL_REG_ID
                               (replicate 8 0) 0)))
           = xfers (fresh 0 :: u8 world)"
    by blast
  moreover have "xfers (snd (snd (zl_read_reg default_config (stub_bus id_regs) (fresh 0)
                   ZL_REG_ID (replicate 8 0) 0)))
                 = [(write_xfer default_config ZL_PAGE_SEL 0, 2)]"
    by code_simp
  moreover have "xfers (fresh 0 :: u8 world) = []"
    by (simp add: fresh_def)
  ultimately show False by simp
qed

lemma length_uninit: "length (uninit n junk) = n"
  by (simp add: uninit_def)

lemma uninit_nonempty: "0 < n \<Longrightarrow> uninit n junk \<noteq> []"
  using length_uninit [of n junk] by auto

lemma spi_read_length:
  assumes "len \<le> length buf"
  shows "length (fst (snd (spi_read cfg bus w off buf len))) = length buf"
proof -
  consider (inval) "len = 0 \<or> 255 < len"
    | (nomem) "0 < len" "len \<le> 255" "\<not> allocs_ok 2 w"
    | (io) "0 < len" "len \<le> 255" "allocs_ok 2 w"
    by linarith
  then show ?thesis
  proof cases
    case inval
    then show ?thesis by (simp add: spi_read_invalid)
  next
    case nomem
    then show ?thesis by (simp add: spi_read_nomem)
  next
    case io
    obtain ret data d where bus: "bus (dev w) (read_xfer cfg off len) = (ret, data, d)"
      by (cases "bus (dev w) (read_xfer cfg off len)") auto
    note ok = spi_read_ok [where bus = bus and w = w and cfg = cfg and off = off and len = len
        and buf = buf, OF io bus]
    show ?thesis
      using assms by (simp add: ok(2) memcpy_def length_received)
  qed
qed

lemma zl_read_reg_length:
  assumes "len \<le> length buf"
  shows "length (fst (snd (zl_read_reg cfg bus w reg buf len))) = length buf"
  using assms by (simp add: zl_read_reg_unfold spi_read_length)

lemma take_2_nth: "2 \<le> length b \<Longrightarrow> take 2 b = [b ! 0, b ! 1]"
  by (cases b; cases "tl b") auto

lemma take_4_nth: "4 \<le> length b \<Longrightarrow> take 4 b = [b ! 0, b ! 1, b ! 2, b ! 3]"
  by (cases b; cases "tl b"; cases "tl (tl b)"; cases "tl (tl (tl b))") auto

lemma unat_ucast_up:
  "LENGTH('b::len) \<le> LENGTH('a::len) \<Longrightarrow> unat (ucast (x :: 'b word) :: 'a word) = unat x"
proof -
  assume le: "LENGTH('b) \<le> LENGTH('a)"
  have "unat x < 2 ^ LENGTH('b)" by simp
  also have "\<dots> \<le> 2 ^ LENGTH('a)" using le by simp
  finally have "take_bit LENGTH('a) (unat x) = unat x"
    by (simp add: take_bit_nat_eq_self_iff)
  then show ?thesis by (simp only: unsigned_ucast_eq)
qed

lemma unat_byte: "unat (x :: u8) < 256"
  using unsigned_less [of x, where 'a = nat] by simp

lemma be16_value: "unat (from_le [lo, hi] :: u16) = unat hi * 256 + unat lo"
proof -
  have "unat (from_le [lo, hi] :: u16) = le_nat [lo, hi] mod 2 ^ LENGTH(16)"
    by (rule unat_from_le)
  also have "\<dots> = unat hi * 256 + unat lo"
    using unat_byte [of lo] unat_byte [of hi] by simp
  finally show ?thesis .
qed

lemma be32_value:
  "unat (from_le [b3, b2, b1, b0] :: u32)
   = unat b0 * 2 ^ 24 + unat b1 * 2 ^ 16 + unat b2 * 2 ^ 8 + unat b3"
proof -
  have "unat (from_le [b3, b2, b1, b0] :: u32) = le_nat [b3, b2, b1, b0] mod 2 ^ LENGTH(32)"
    by (rule unat_from_le)
  also have "\<dots> = unat b0 * 2 ^ 24 + unat b1 * 2 ^ 16 + unat b2 * 2 ^ 8 + unat b3"
    using unat_byte [of b0] unat_byte [of b1] unat_byte [of b2] unat_byte [of b3] by simp
  finally show ?thesis .
qed

subsection \<open>The big-endian decode of \<open>ZL_READ_REG\<close>\<close>

text \<open>
  Claim C4. When the register read of \<open>ZL_READ_REG\<close> has succeeded and left the
  bytes \<open>b\<close> in the array \<open>_b\<close>, and the variable is wide enough for the length, the
  macro assigns: for length 2 the value \<open>hi * 256 + lo\<close> of the first two bytes
  \<open>[hi, lo]\<close>; for length 4 the value \<open>b0 * 2^24 + b1 * 2^16 + b2 * 2^8 + b3\<close> of the
  first four; for length 1 the first byte itself. This holds on a little-endian and
  on a big-endian host.
\<close>

theorem ZL_READ_REG_big_endian:
  assumes rd: "zl_read_reg cfg bus w REG (uninit 8 junk) len = (rc, b, w2)"
    and ok: "0 \<le> rc"
    and fit: "len \<le> LENGTH('a::len) div 8"
  shows "(len \<le> 8 \<longrightarrow> length b = 8)
       \<and> (len = 1 \<longrightarrow>
            (\<exists>v :: 'a word. ZL_READ_REG en cfg bus w junk REGn OUTVARn REG len = (Inr v, w2)
                 \<and> unat v = unat (b ! 0)))
       \<and> (len = 2 \<longrightarrow>
            (\<exists>v :: 'a word. ZL_READ_REG en cfg bus w junk REGn OUTVARn REG len = (Inr v, w2)
                 \<and> unat v = unat (b ! 0) * 256 + unat (b ! 1)))
       \<and> (len = 4 \<longrightarrow>
            (\<exists>v :: 'a word. ZL_READ_REG en cfg bus w junk REGn OUTVARn REG len = (Inr v, w2)
                 \<and> unat v = unat (b ! 0) * 2 ^ 24 + unat (b ! 1) * 2 ^ 16
                            + unat (b ! 2) * 2 ^ 8 + unat (b ! 3)))"
proof -
  have lb: "length b = 8" if "len \<le> 8"
  proof -
    from that have "length (fst (snd (zl_read_reg cfg bus w REG (uninit 8 junk) len))) = 8"
      by (simp add: zl_read_reg_length length_uninit)
    with rd show ?thesis by simp
  qed
  have one: "\<exists>v :: 'a word. ZL_READ_REG en cfg bus w junk REGn OUTVARn REG len = (Inr v, w2)
                 \<and> unat v = unat (b ! 0)" if l: "len = 1"
  proof -
    have L: "LENGTH(8) \<le> LENGTH('a)" using fit l by simp
    have z: "(ZL_READ_REG en cfg bus w junk REGn OUTVARn REG len :: (fatal + 'a word) \<times> _)
          = (Inr (ucast (b ! 0)), w2)"
      using rd ok fit l by (simp add: ZL_READ_REG_def length_uninit uninit_nonempty Let_def)
    have "unat (ucast (b ! 0) :: 'a word) = unat (b ! 0)"
      using L by (rule unat_ucast_up)
    with z show ?thesis by blast
  qed
  have two: "\<exists>v :: 'a word. ZL_READ_REG en cfg bus w junk REGn OUTVARn REG len = (Inr v, w2)
                 \<and> unat v = unat (b ! 0) * 256 + unat (b ! 1)" if l: "len = 2"
  proof -
    have L: "LENGTH(16) \<le> LENGTH('a)" using fit l by simp
    have z: "(ZL_READ_REG en cfg bus w junk REGn OUTVARn REG len :: (fatal + 'a word) \<times> _)
          = (Inr (ucast (ntohs en (object_value en (take 2 b)))), w2)"
      using rd ok fit l by (simp add: ZL_READ_REG_def length_uninit Let_def)
    have t: "take 2 b = [b ! 0, b ! 1]"
      using lb l by (simp add: take_2_nth)
    have "unat (ucast (ntohs en (object_value en (take 2 b))) :: 'a word)
          = unat (ntohs en (object_value en (take 2 b)))"
      using L by (rule unat_ucast_up)
    also have "\<dots> = unat (b ! 0) * 256 + unat (b ! 1)"
      unfolding t ntohs_bytes by (rule be16_value)
    finally show ?thesis using z by blast
  qed
  have four: "\<exists>v :: 'a word. ZL_READ_REG en cfg bus w junk REGn OUTVARn REG len = (Inr v, w2)
                 \<and> unat v = unat (b ! 0) * 2 ^ 24 + unat (b ! 1) * 2 ^ 16
                            + unat (b ! 2) * 2 ^ 8 + unat (b ! 3)" if l: "len = 4"
  proof -
    have L: "LENGTH(32) \<le> LENGTH('a)" using fit l by simp
    have z: "(ZL_READ_REG en cfg bus w junk REGn OUTVARn REG len :: (fatal + 'a word) \<times> _)
          = (Inr (ucast (ntohl en (object_value en (take 4 b)))), w2)"
      using rd ok fit l by (simp add: ZL_READ_REG_def length_uninit Let_def)
    have t: "take 4 b = [b ! 0, b ! 1, b ! 2, b ! 3]"
      using lb l by (simp add: take_4_nth)
    have "unat (ucast (ntohl en (object_value en (take 4 b))) :: 'a word)
          = unat (ntohl en (object_value en (take 4 b)))"
      using L by (rule unat_ucast_up)
    also have "\<dots> = unat (b ! 0) * 2 ^ 24 + unat (b ! 1) * 2 ^ 16
                            + unat (b ! 2) * 2 ^ 8 + unat (b ! 3)"
      unfolding t ntohl_bytes by (rule be32_value)
    finally show ?thesis using z by blast
  qed
  from lb one two four show ?thesis by blast
qed

theorem ZL_READ_REG_big_endian_witness:
  "(\<exists>v :: u16.
      ZL_READ_REG BigEndian default_config (stub_bus id_regs) (fresh 0) [] ''ZL_REG_ID''
        ''chip_id'' ZL_REG_ID 2
      = (Inr v, \<lparr>dev = 0,
                  xfers = [(write_xfer default_config ZL_PAGE_SEL 0, 2),
                           (read_xfer default_config 1 2, 3)],
                  allocs = [], stderr = []\<rparr>)
      \<and> unat v = 0x0E * 256 + 0x95)
   \<and> (\<exists>v :: u32.
      ZL_READ_REG LittleEndian default_config (stub_bus id_regs) (fresh 0) [] ''R'' ''v''
        ZL_REG_CUSTOM_CONFIG_VER 4
      = (Inr v, \<lparr>dev = 0,
                  xfers = [(write_xfer default_config ZL_PAGE_SEL 0, 2),
                           (read_xfer default_config 7 4, 5)],
                  allocs = [], stderr = []\<rparr>)
      \<and> unat v = 1)"
proof -
  have r2: "zl_read_reg default_config (stub_bus id_regs) (fresh 0) ZL_REG_ID (uninit 8 []) 2
            = (0, [0x0E, 0x95, 0, 0, 0, 0, 0, 0],
               \<lparr>dev = 0,
                xfers = [(write_xfer default_config ZL_PAGE_SEL 0, 2),
                         (read_xfer default_config 1 2, 3)],
                allocs = [], stderr = []\<rparr>)"
    by code_simp
  have r4: "zl_read_reg default_config (stub_bus id_regs) (fresh 0) ZL_REG_CUSTOM_CONFIG_VER
              (uninit 8 []) 4
            = (0, [0, 0, 0, 1, 0, 0, 0, 0],
               \<lparr>dev = 0,
                xfers = [(write_xfer default_config ZL_PAGE_SEL 0, 2),
                         (read_xfer default_config 7 4, 5)],
                allocs = [], stderr = []\<rparr>)"
    by code_simp
  have ok: "(0::int) \<le> 0" by simp
  have f2: "(2::nat) \<le> LENGTH(16) div 8" by simp
  have f4: "(4::nat) \<le> LENGTH(32) div 8" by simp
  from ZL_READ_REG_big_endian [OF r2 ok f2, of BigEndian "''ZL_REG_ID''" "''chip_id''"]
    ZL_READ_REG_big_endian [OF r4 ok f4, of LittleEndian "''R''" "''v''"]
  show ?thesis by simp
qed

lemma zl_set_page_fst: "fst (zl_set_page cfg bus w (reg_page reg)) = 0 \<or> fst (zl_set_page cfg bus w (reg_page reg)) = - 1"
  by (simp add: zl_set_page_ok(1) [OF reg_page_le])

lemma zl_read_reg_invalid_neg:
  assumes "len = 0 \<or> 255 < len"
  shows "fst (zl_read_reg cfg bus w reg buf len) < 0"
  using zl_set_page_fst [of cfg bus w reg] assms
  by (auto simp add: zl_read_reg_unfold spi_read_invalid EINVAL_def)

lemma printf_u_8: "printf_u 8 = ''8''"
  by (simp add: printf_u_def digits.simps digit_char_def)

subsection \<open>Lengths that \<open>ZL_READ_REG\<close> does not decode\<close>

text \<open>
  Claim C5, amended. For every length other than 1, 2 and 4, \<open>ZL_READ_REG\<close> ends
  the process with \<open>errx(EXIT_FAILURE, ...)\<close> and assigns no value. Which message it
  prints depends on the length: above 8 it is "read len N > 8", printed before any
  access to the bus (the world is unchanged); otherwise, when the register read
  fails, it is "read REG failed", and a length of 0 always fails so; only for the
  lengths 3, 5, 6, 7 and 8 with a successful read is it
  "unsupported LEN=N (only 8,16,32 bits)".
\<close>

theorem ZL_READ_REG_other_lengths:
  assumes "len \<noteq> 1" "len \<noteq> 2" "len \<noteq> 4"
  shows "fst (ZL_READ_REG en cfg bus w junk REGn OUTVARn REG len :: (fatal + 'a::len word) \<times> 'd world)
         = Inl (Errx EXIT_FAILURE
                  (if 8 < len then REGn @ '' read len '' @ printf_u len @ '' > 8''
                   else if fst (zl_read_reg cfg bus
                                  (if LENGTH('a) div 8 < len
                                   then warnx w (REGn @ '' read len '' @ printf_u len @ '' > ''
                                                 @ printf_u (LENGTH('a) div 8) @ '' for ''
                                                 @ OUTVARn)
                                   else w)
                                  REG (uninit 8 junk) len) < 0
                   then ''read '' @ REGn @ '' failed''
                   else REGn @ '' unsupported LEN='' @ printf_u len @ '' (only 8,16,32 bits)''))
       \<and> (8 < len \<longrightarrow>
            snd (ZL_READ_REG en cfg bus w junk REGn OUTVARn REG len :: (fatal + 'a word) \<times> 'd world)
            = w)
       \<and> (len = 0 \<longrightarrow>
            fst (ZL_READ_REG en cfg bus w junk REGn OUTVARn REG len :: (fatal + 'a word) \<times> 'd world)
            = Inl (Errx EXIT_FAILURE (''read '' @ REGn @ '' failed'')))"
proof -
  let ?w1 = "if LENGTH('a) div 8 < len
             then warnx w (REGn @ '' read len '' @ printf_u len @ '' > ''
                           @ printf_u (LENGTH('a) div 8) @ '' for '' @ OUTVARn)
             else w"
  have neg0: "len = 0 \<Longrightarrow> fst (zl_read_reg cfg bus ?w1 REG (uninit 8 junk) len) < 0"
    by (rule zl_read_reg_invalid_neg) simp
  have a: "fst (ZL_READ_REG en cfg bus w junk REGn OUTVARn REG len :: (fatal + 'a word) \<times> 'd world)
         = Inl (Errx EXIT_FAILURE
                  (if 8 < len then REGn @ '' read len '' @ printf_u len @ '' > 8''
                   else if fst (zl_read_reg cfg bus ?w1 REG (uninit 8 junk) len) < 0
                   then ''read '' @ REGn @ '' failed''
                   else REGn @ '' unsupported LEN='' @ printf_u len @ '' (only 8,16,32 bits)''))"
    using assms
    by (simp add: ZL_READ_REG_def length_uninit printf_u_8 Let_def split: prod.splits)
  have b: "8 < len \<longrightarrow>
            snd (ZL_READ_REG en cfg bus w junk REGn OUTVARn REG len :: (fatal + 'a word) \<times> 'd world)
            = w"
    by (simp add: ZL_READ_REG_def length_uninit Let_def)
  have c: "len = 0 \<longrightarrow>
            fst (ZL_READ_REG en cfg bus w junk REGn OUTVARn REG len :: (fatal + 'a word) \<times> 'd world)
            = Inl (Errx EXIT_FAILURE (''read '' @ REGn @ '' failed''))"
  proof
    assume l0: "len = 0"
    from neg0 [OF l0] l0 show "fst (ZL_READ_REG en cfg bus w junk REGn OUTVARn REG len :: (fatal + 'a word) \<times> 'd world)
            = Inl (Errx EXIT_FAILURE (''read '' @ REGn @ '' failed''))"
      unfolding a by simp
  qed
  from a b c show ?thesis by (intro conjI)
qed

theorem ZL_READ_REG_other_lengths_witness:
  "fst (ZL_READ_REG LittleEndian default_config (stub_bus id_regs) (fresh 0) [] ''ZL_REG_ID''
          ''chip_id'' ZL_REG_ID 3 :: (fatal + u16) \<times> u8 world)
     = Inl (Errx EXIT_FAILURE ''ZL_REG_ID unsupported LEN=3 (only 8,16,32 bits)'')
   \<and> fst (ZL_READ_REG LittleEndian default_config (stub_bus id_regs) (fresh 0) [] ''ZL_REG_ID''
          ''chip_id'' ZL_REG_ID 9 :: (fatal + u16) \<times> u8 world)
     = Inl (Errx EXIT_FAILURE ''ZL_REG_ID read len 9 > 8'')
   \<and> fst (ZL_READ_REG LittleEndian default_config (stub_bus id_regs) (fresh 0) [] ''ZL_REG_ID''
          ''chip_id'' ZL_REG_ID 0 :: (fatal + u16) \<times> u8 world)
     = Inl (Errx EXIT_FAILURE ''read ZL_REG_ID failed'')"
proof -
  have n3: "(3::nat) \<noteq> 1" "(3::nat) \<noteq> 2" "(3::nat) \<noteq> 4" by simp_all
  have n9: "(9::nat) \<noteq> 1" "(9::nat) \<noteq> 2" "(9::nat) \<noteq> 4" by simp_all
  have n0: "(0::nat) \<noteq> 1" "(0::nat) \<noteq> 2" "(0::nat) \<noteq> 4" by simp_all
  have r3: "fst (zl_read_reg default_config (stub_bus id_regs)
                  (warnx (fresh 0) (''ZL_REG_ID read len 3 > 2 for chip_id''))
                  ZL_REG_ID (uninit 8 []) 3) = 0"
    by code_simp
  have r0: "fst (zl_read_reg default_config (stub_bus id_regs) (fresh 0) ZL_REG_ID
                  (uninit 8 []) 0) < 0"
    by code_simp
  have p3: "printf_u 3 = ''3''" "printf_u 9 = ''9''" "printf_u 2 = ''2''"
    by (simp_all add: printf_u_def digits.simps digit_char_def)
  from ZL_READ_REG_other_lengths [OF n3, where 'a = 16, of LittleEndian default_config
         "stub_bus id_regs" "fresh 0" "[]" "''ZL_REG_ID''" "''chip_id''" ZL_REG_ID]
    ZL_READ_REG_other_lengths [OF n9, where 'a = 16, of LittleEndian default_config
         "stub_bus id_regs" "fresh 0" "[]" "''ZL_REG_ID''" "''chip_id''" ZL_REG_ID]
    ZL_READ_REG_other_lengths [OF n0, where 'a = 16, of LittleEndian default_config
         "stub_bus id_regs" "fresh 0" "[]" "''ZL_REG_ID''" "''chip_id''" ZL_REG_ID]
  show ?thesis
    using r3 r0 by (simp add: p3)
qed

text \<open>
  Claim C5 as stated (every other length is reported as an unsupported width) fails
  at length 0, which is reported as a failed read.
\<close>

theorem ZL_READ_REG_unsupported_counterexample:
  "\<not> (\<forall>len. len \<noteq> 1 \<and> len \<noteq> 2 \<and> len \<noteq> 4 \<longrightarrow>
         fst (ZL_READ_REG LittleEndian default_config (stub_bus id_regs) (fresh 0) []
                ''ZL_REG_ID'' ''chip_id'' ZL_REG_ID len :: (fatal + u16) \<times> u8 world)
         = Inl (Errx EXIT_FAILURE
                  (''ZL_REG_ID unsupported LEN='' @ printf_u len @ '' (only 8,16,32 bits)'')))"
proof
  assume "\<forall>len. len \<noteq> 1 \<and> len \<noteq> 2 \<and> len \<noteq> 4 \<longrightarrow>
         fst (ZL_READ_REG LittleEndian default_config (stub_bus id_regs) (fresh 0) []
                ''ZL_REG_ID'' ''chip_id'' ZL_REG_ID len :: (fatal + u16) \<times> u8 world)
         = Inl (Errx EXIT_FAILURE
                  (''ZL_REG_ID unsupported LEN='' @ printf_u len @ '' (only 8,16,32 bits)''))"
  then have "fst (ZL_READ_REG LittleEndian default_config (stub_bus id_regs) (fresh 0) []
                ''ZL_REG_ID'' ''chip_id'' ZL_REG_ID 0 :: (fatal + u16) \<times> u8 world)
         = Inl (Errx EXIT_FAILURE
                  (''ZL_REG_ID unsupported LEN='' @ printf_u 0 @ '' (only 8,16,32 bits)''))"
    by simp
  moreover have "fst (ZL_READ_REG LittleEndian default_config (stub_bus id_regs) (fresh 0) []
                ''ZL_REG_ID'' ''chip_id'' ZL_REG_ID 0 :: (fatal + u16) \<times> u8 world)
         = Inl (Errx EXIT_FAILURE ''read ZL_REG_ID failed'')"
    by code_simp
  ultimately show False by simp
qed

subsection \<open>Failed transfers\<close>

lemma complete_simps [simp]:
  "complete []" "complete (e # xs) = (1 \<le> snd e \<and> complete xs)"
  "complete (xs @ ys) = (complete xs \<and> complete ys)"
  by (simp_all add: complete_def)

lemma new_xfers_append: "xfers w' = xfers w @ new \<Longrightarrow> new_xfers w w' = new"
  by (simp add: new_xfers_def)

lemma spi_write_u8_log:
  "\<exists>new. xfers (snd (spi_write_u8 cfg bus w a v)) = xfers w @ new
         \<and> (fst (spi_write_u8 cfg bus w a v) = 0 \<or> fst (spi_write_u8 cfg bus w a v) = - 1)
         \<and> (fst (spi_write_u8 cfg bus w a v) = 0 \<longrightarrow> complete new)"
  by (simp add: spi_write_u8_xfers spi_write_u8_fst)

lemma spi_read_log:
  "\<exists>new. xfers (snd (snd (spi_read cfg bus w off buf len))) = xfers w @ new
         \<and> (fst (spi_read cfg bus w off buf len) = 0 \<or> fst (spi_read cfg bus w off buf len) < 0)
         \<and> (fst (spi_read cfg bus w off buf len) = 0 \<longrightarrow> complete new)"
proof -
  consider (inval) "len = 0 \<or> 255 < len"
    | (nomem) "0 < len" "len \<le> 255" "\<not> allocs_ok 2 w"
    | (io) "0 < len" "len \<le> 255" "allocs_ok 2 w"
    by linarith
  then show ?thesis
  proof cases
    case inval
    then show ?thesis by (simp add: spi_read_invalid EINVAL_def)
  next
    case nomem
    then show ?thesis by (simp add: spi_read_nomem ENOMEM_def)
  next
    case io
    obtain ret data d where bus: "bus (dev w) (read_xfer cfg off len) = (ret, data, d)"
      by (cases "bus (dev w) (read_xfer cfg off len)") auto
    note ok = spi_read_ok [where bus = bus and w = w and cfg = cfg and off = off and len = len
        and buf = buf, OF io bus]
    show ?thesis
      by (simp add: ok(1) ok(4))
  qed
qed

lemma zl_set_page_log:
  "\<exists>new. xfers (snd (zl_set_page cfg bus w (reg_page reg))) = xfers w @ new
         \<and> (fst (zl_set_page cfg bus w (reg_page reg)) = 0 \<longrightarrow> complete new)"
  by (simp add: zl_set_page_ok(1,2) [OF reg_page_le])

lemma zl_read_reg_log:
  "\<exists>new. xfers (snd (snd (zl_read_reg cfg bus w reg buf len))) = xfers w @ new
         \<and> (0 \<le> fst (zl_read_reg cfg bus w reg buf len) \<longrightarrow> complete new)"
proof -
  let ?p = "zl_set_page cfg bus w (reg_page reg)"
  obtain n1 where n1: "xfers (snd ?p) = xfers w @ n1" "fst ?p = 0 \<longrightarrow> complete n1"
    using zl_set_page_log [of cfg bus w reg] by blast
  show ?thesis
  proof (cases "fst ?p = 0")
    case False
    with zl_set_page_fst [of cfg bus w reg] have "fst ?p = - 1" by simp
    with n1 show ?thesis by (simp add: zl_read_reg_unfold)
  next
    case True
    let ?r = "spi_read cfg bus (snd ?p) (reg_offset reg) buf len"
    obtain n2 where n2: "xfers (snd (snd ?r)) = xfers (snd ?p) @ n2"
        "fst ?r = 0 \<or> fst ?r < 0" "fst ?r = 0 \<longrightarrow> complete n2"
      using spi_read_log [of cfg bus "snd ?p" "reg_offset reg" buf len] by blast
    have z: "zl_read_reg cfg bus w reg buf len = ?r"
      using True by (simp add: zl_read_reg_unfold)
    have x: "xfers (snd (snd (zl_read_reg cfg bus w reg buf len))) = xfers w @ (n1 @ n2)"
      by (simp add: z n1(1) n2(1))
    have "0 \<le> fst (zl_read_reg cfg bus w reg buf len) \<longrightarrow> complete (n1 @ n2)"
      using True n1(2) n2(2,3) by (auto simp add: z)
    with x show ?thesis by blast
  qed
qed

lemma warnx_proj [simp]:
  "dev (warnx w s) = dev w" "xfers (warnx w s) = xfers w" "allocs (warnx w s) = allocs w"
  by (simp_all add: warnx_def)

lemma ZL_READ_REG_log:
  "\<exists>new. xfers (snd (ZL_READ_REG en cfg bus w junk REGn OUTVARn REG len
                       :: (fatal + 'a::len word) \<times> 'd world)) = xfers w @ new
         \<and> ((\<exists>v. fst (ZL_READ_REG en cfg bus w junk REGn OUTVARn REG len
                       :: (fatal + 'a word) \<times> 'd world) = Inr v) \<longrightarrow> complete new)
         \<and> (\<forall>f. fst (ZL_READ_REG en cfg bus w junk REGn OUTVARn REG len
                       :: (fatal + 'a word) \<times> 'd world) = Inl f
                 \<longrightarrow> (\<exists>msg. f = Errx EXIT_FAILURE msg))"
proof -
  let ?w1 = "if LENGTH('a) div 8 < len
             then warnx w (REGn @ '' read len '' @ printf_u len @ '' > ''
                           @ printf_u (LENGTH('a) div 8) @ '' for '' @ OUTVARn)
             else w"
  let ?z = "zl_read_reg cfg bus ?w1 REG (uninit 8 junk) len"
  obtain n where n: "xfers (snd (snd ?z)) = xfers ?w1 @ n" "0 \<le> fst ?z \<longrightarrow> complete n"
    using zl_read_reg_log [of cfg bus ?w1 REG "uninit 8 junk" len] by blast
  have w1: "xfers ?w1 = xfers w" by simp
  show ?thesis
  proof (cases "8 < len")
    case True
    then show ?thesis by (simp add: ZL_READ_REG_def length_uninit Let_def)
  next
    case False
    then have "xfers (snd (ZL_READ_REG en cfg bus w junk REGn OUTVARn REG len
                       :: (fatal + 'a::len word) \<times> 'd world)) = xfers w @ n
         \<and> ((\<exists>v. fst (ZL_READ_REG en cfg bus w junk REGn OUTVARn REG len
                       :: (fatal + 'a word) \<times> 'd world) = Inr v) \<longrightarrow> complete n)
         \<and> (\<forall>f. fst (ZL_READ_REG en cfg bus w junk REGn OUTVARn REG len
                       :: (fatal + 'a word) \<times> 'd world) = Inl f
                 \<longrightarrow> (\<exists>msg. f = Errx EXIT_FAILURE msg))"
      using n unfolding w1
      by (auto simp add: ZL_READ_REG_def length_uninit Let_def split: prod.splits)
    then show ?thesis by blast
  qed
qed


lemma exit_errx_Errx:
  "exit_errx (Errx st msg) w = (st, [], fprintf_stderr w (msg @ newline))"
  by (simp add: exit_errx_def)

lemma main_probe_unfold:
  "main_probe en cfg bus w junk =
     (let R1 = ZL_READ_REG en cfg bus w (junk 0) ''ZL_REG_ID'' ''chip_id'' ZL_REG_ID 2;
          R2 = ZL_READ_REG en cfg bus (snd R1) (junk 1) ''ZL_REG_REVISION'' ''revision''
                 ZL_REG_REVISION 2;
          R3 = ZL_READ_REG en cfg bus (snd R2) (junk 2) ''ZL_REG_FW_VER'' ''fw_ver''
                 ZL_REG_FW_VER 2;
          R4 = ZL_READ_REG en cfg bus (snd R3) (junk 3) ''ZL_REG_CUSTOM_CONFIG_VER''
                 ''cfg_ver'' ZL_REG_CUSTOM_CONFIG_VER 4
      in case fst R1 of
           Inl f \<Rightarrow> exit_errx f (snd R1)
         | Inr chip_id \<Rightarrow>
        (case fst R2 of
           Inl f \<Rightarrow> exit_errx f (snd R2)
         | Inr revision \<Rightarrow>
        (case fst R3 of
           Inl f \<Rightarrow> exit_errx f (snd R3)
         | Inr fw_ver \<Rightarrow>
        (case fst R4 of
           Inl f \<Rightarrow> exit_errx f (snd R4)
         | Inr cfg_ver \<Rightarrow>
             (EXIT_SUCCESS, report cfg chip_id revision fw_ver cfg_ver, snd R4)))))"
  by (simp add: main_probe_def Let_def split: prod.splits sum.splits)

lemma main_probe_log:
  "\<exists>new. xfers (snd (snd (main_probe en cfg bus w junk))) = xfers w @ new
         \<and> (complete new
              \<or> fst (main_probe en cfg bus w junk) = EXIT_FAILURE
                \<and> fst (snd (main_probe en cfg bus w junk)) = [])"
proof -
  define R1 :: "(fatal + u16) \<times> 'a world"
    where "R1 = ZL_READ_REG en cfg bus w (junk 0) ''ZL_REG_ID'' ''chip_id'' ZL_REG_ID 2"
  define R2 :: "(fatal + u16) \<times> 'a world"
    where "R2 = ZL_READ_REG en cfg bus (snd R1) (junk 1) ''ZL_REG_REVISION'' ''revision''
                 ZL_REG_REVISION 2"
  define R3 :: "(fatal + u16) \<times> 'a world"
    where "R3 = ZL_READ_REG en cfg bus (snd R2) (junk 2) ''ZL_REG_FW_VER'' ''fw_ver''
                 ZL_REG_FW_VER 2"
  define R4 :: "(fatal + u32) \<times> 'a world"
    where "R4 = ZL_READ_REG en cfg bus (snd R3) (junk 3) ''ZL_REG_CUSTOM_CONFIG_VER''
                 ''cfg_ver'' ZL_REG_CUSTOM_CONFIG_VER 4"
  have m: "main_probe en cfg bus w junk =
      (case fst R1 of
           Inl f \<Rightarrow> exit_errx f (snd R1)
         | Inr chip_id \<Rightarrow>
        (case fst R2 of
           Inl f \<Rightarrow> exit_errx f (snd R2)
         | Inr revision \<Rightarrow>
        (case fst R3 of
           Inl f \<Rightarrow> exit_errx f (snd R3)
         | Inr fw_ver \<Rightarrow>
        (case fst R4 of
           Inl f \<Rightarrow> exit_errx f (snd R4)
         | Inr cfg_ver \<Rightarrow>
             (EXIT_SUCCESS, report cfg chip_id revision fw_ver cfg_ver, snd R4)))))"
    unfolding R1_def R2_def R3_def R4_def by (simp only: main_probe_unfold Let_def)
  obtain n1 where n1: "xfers (snd R1) = xfers w @ n1" "(\<exists>v. fst R1 = Inr v) \<longrightarrow> complete n1"
      "\<forall>f. fst R1 = Inl f \<longrightarrow> (\<exists>msg. f = Errx EXIT_FAILURE msg)"
    unfolding R1_def using ZL_READ_REG_log by blast
  obtain n2 where n2: "xfers (snd R2) = xfers (snd R1) @ n2" "(\<exists>v. fst R2 = Inr v) \<longrightarrow> complete n2"
      "\<forall>f. fst R2 = Inl f \<longrightarrow> (\<exists>msg. f = Errx EXIT_FAILURE msg)"
    unfolding R2_def using ZL_READ_REG_log by blast
  obtain n3 where n3: "xfers (snd R3) = xfers (snd R2) @ n3" "(\<exists>v. fst R3 = Inr v) \<longrightarrow> complete n3"
      "\<forall>f. fst R3 = Inl f \<longrightarrow> (\<exists>msg. f = Errx EXIT_FAILURE msg)"
    unfolding R3_def using ZL_READ_REG_log by blast
  obtain n4 where n4: "xfers (snd R4) = xfers (snd R3) @ n4" "(\<exists>v. fst R4 = Inr v) \<longrightarrow> complete n4"
      "\<forall>f. fst R4 = Inl f \<longrightarrow> (\<exists>msg. f = Errx EXIT_FAILURE msg)"
    unfolding R4_def using ZL_READ_REG_log by blast
  show ?thesis
  proof (cases "fst R1")
    case (Inl f)
    with n1(3) obtain msg where "f = Errx EXIT_FAILURE msg" by blast
    with Inl n1(1) show ?thesis by (simp add: m exit_errx_Errx)
  next
    case i1: (Inr c)
    show ?thesis
    proof (cases "fst R2")
      case (Inl f)
      with n2(3) obtain msg where "f = Errx EXIT_FAILURE msg" by blast
      with Inl i1 n1(1) n2(1) show ?thesis by (simp add: m exit_errx_Errx)
    next
      case i2: (Inr r)
      show ?thesis
      proof (cases "fst R3")
        case (Inl f)
        with n3(3) obtain msg where "f = Errx EXIT_FAILURE msg" by blast
        with Inl i1 i2 n1(1) n2(1) n3(1) show ?thesis by (simp add: m exit_errx_Errx)
      next
        case i3: (Inr fw)
        show ?thesis
        proof (cases "fst R4")
          case (Inl f)
          with n4(3) obtain msg where "f = Errx EXIT_FAILURE msg" by blast
          with Inl i1 i2 i3 n1(1) n2(1) n3(1) n4(1) show ?thesis
            by (simp add: m exit_errx_Errx)
        next
          case i4: (Inr cv)
          have "complete (n1 @ n2 @ n3 @ n4)"
            using i1 i2 i3 i4 n1(2) n2(2) n3(2) n4(2) by simp
          moreover have "xfers (snd (snd (main_probe en cfg bus w junk)))
                         = xfers w @ (n1 @ n2 @ n3 @ n4)"
            using i1 i2 i3 i4 n1(1) n2(1) n3(1) n4(1) by (simp add: m)
          ultimately show ?thesis by blast
        qed
      qed
    qed
  qed
qed


lemma incomplete_iff: "(\<not> complete xs) = (\<exists>e \<in> set xs. snd e < 1)"
  by (auto simp add: complete_def list_all_iff not_le)

text \<open>
  Claim C1, amended. \<open>spi_write_u8\<close> (the page-select write) returns \<open>-1\<close> exactly
  when the \<open>ioctl\<close> returns less than 1, and so does \<open>spi_read\<close> for a valid length
  once its buffers are allocated; a positive return value is taken as success, whatever
  the number of bytes requested. When a transfer submitted by \<open>zl_read_reg\<close> returns
  less than 1, \<open>zl_read_reg\<close> returns a negative result; when that happens during
  the probe, the probe ends with \<open>EXIT_FAILURE\<close> and has printed nothing on standard
  output.
\<close>

theorem bus_error_aborts:
  "fst (spi_write_u8 cfg bus w a v)
     = (if fst (bus (dev w) (write_xfer cfg a v)) < 1 then - 1 else 0)
   \<and> (0 < len \<and> len \<le> 255 \<and> allocs_ok 2 w \<longrightarrow>
        fst (spi_read cfg bus w off buf len)
          = (if fst (bus (dev w) (read_xfer cfg off len)) < 1 then - 1 else 0))
   \<and> ((\<exists>e \<in> set (new_xfers w (snd (snd (zl_read_reg cfg bus w reg buf len)))). snd e < 1) \<longrightarrow>
        fst (zl_read_reg cfg bus w reg buf len) < 0)
   \<and> ((\<exists>e \<in> set (new_xfers w (snd (snd (main_probe en cfg bus w junk)))). snd e < 1) \<longrightarrow>
        fst (main_probe en cfg bus w junk) = EXIT_FAILURE
        \<and> fst (snd (main_probe en cfg bus w junk)) = [])"
proof (intro conjI impI)
  show "fst (spi_write_u8 cfg bus w a v)
     = (if fst (bus (dev w) (write_xfer cfg a v)) < 1 then - 1 else 0)"
    by (rule spi_write_u8_fst)
next
  assume h: "0 < len \<and> len \<le> 255 \<and> allocs_ok 2 w"
  obtain ret data d where bus: "bus (dev w) (read_xfer cfg off len) = (ret, data, d)"
    by (cases "bus (dev w) (read_xfer cfg off len)") auto
  from h have io: "0 < len" "len \<le> 255" "allocs_ok 2 w" by simp_all
  note ok = spi_read_ok [where bus = bus and w = w and cfg = cfg and off = off and len = len
      and buf = buf, OF io bus]
  show "fst (spi_read cfg bus w off buf len)
          = (if fst (bus (dev w) (read_xfer cfg off len)) < 1 then - 1 else 0)"
    by (simp add: ok(1) bus)
next
  assume "\<exists>e \<in> set (new_xfers w (snd (snd (zl_read_reg cfg bus w reg buf len)))). snd e < 1"
  then have nc: "\<not> complete (new_xfers w (snd (snd (zl_read_reg cfg bus w reg buf len))))"
    by (simp only: incomplete_iff)
  obtain new where n: "xfers (snd (snd (zl_read_reg cfg bus w reg buf len))) = xfers w @ new"
      "0 \<le> fst (zl_read_reg cfg bus w reg buf len) \<longrightarrow> complete new"
    using zl_read_reg_log [of cfg bus w reg buf len] by blast
  from nc n show "fst (zl_read_reg cfg bus w reg buf len) < 0"
    by (auto simp add: new_xfers_append [OF n(1)])
next
  assume "\<exists>e \<in> set (new_xfers w (snd (snd (main_probe en cfg bus w junk)))). snd e < 1"
  then have nc: "\<not> complete (new_xfers w (snd (snd (main_probe en cfg bus w junk))))"
    by (simp only: incomplete_iff)
  obtain new where n: "xfers (snd (snd (main_probe en cfg bus w junk))) = xfers w @ new"
      "complete new \<or> fst (main_probe en cfg bus w junk) = EXIT_FAILURE
                \<and> fst (snd (main_probe en cfg bus w junk)) = []"
    using main_probe_log [of en cfg bus w junk] by blast
  from nc n have f: "fst (main_probe en cfg bus w junk) = EXIT_FAILURE
                \<and> fst (snd (main_probe en cfg bus w junk)) = []"
    by (auto simp add: new_xfers_append [OF n(1)])
  from f show "fst (main_probe en cfg bus w junk) = EXIT_FAILURE" by simp
  from f show "fst (snd (main_probe en cfg bus w junk)) = []" by simp
qed

theorem bus_error_aborts_witness:
  "fst (main_probe LittleEndian default_config dead_bus (fresh ()) (\<lambda>i. [])) = EXIT_FAILURE
   \<and> fst (snd (main_probe LittleEndian default_config dead_bus (fresh ()) (\<lambda>i. []))) = []
   \<and> fst (zl_read_reg default_config dead_bus (fresh ()) ZL_REG_ID (replicate 8 0) 2) < 0
   \<and> fst (spi_read default_config dead_bus (fresh ()) 1 (replicate 8 0) 2) = - 1"
proof -
  have p: "new_xfers (fresh ())
             (snd (snd (main_probe LittleEndian default_config dead_bus (fresh ()) (\<lambda>i. []))))
           = [(write_xfer default_config ZL_PAGE_SEL 0, - 1)]"
    by code_simp
  have z: "new_xfers (fresh ())
             (snd (snd (zl_read_reg default_config dead_bus (fresh ()) ZL_REG_ID
                          (replicate 8 0) 2)))
           = [(write_xfer default_config ZL_PAGE_SEL 0, - 1)]"
    by code_simp
  have a: "allocs_ok 2 (fresh ())"
    by (simp add: allocs_ok_def fresh_def)
  have d: "fst (dead_bus (dev (fresh ())) (read_xfer default_config 1 2)) = - 1"
    by (simp add: dead_bus_def)
  from bus_error_aborts [of default_config dead_bus "fresh ()" ZL_PAGE_SEL 0 2 1 "replicate 8 0"
         ZL_REG_ID LittleEndian "\<lambda>i. []"]
  show ?thesis
    using p z a d by simp
qed

text \<open>
  Claim C1 as stated (fewer bytes transferred than the \<open>len + 1\<close> requested is an
  error) fails: on a bus that reports 1 byte for a 3-byte transfer, \<open>spi_read\<close>
  returns 0.
\<close>

theorem short_transfer_counterexample:
  "\<not> (\<forall>len. 0 < len \<and> len \<le> 255
              \<and> fst (short_bus () (read_xfer default_config 1 len)) < int (len + 1)
          \<longrightarrow> fst (spi_read default_config short_bus (fresh ()) 1 (replicate 8 0) len) < 0)"
proof
  assume "\<forall>len. 0 < len \<and> len \<le> 255
              \<and> fst (short_bus () (read_xfer default_config 1 len)) < int (len + 1)
          \<longrightarrow> fst (spi_read default_config short_bus (fresh ()) 1 (replicate 8 0) len) < 0"
  moreover have "fst (short_bus () (read_xfer default_config 1 2)) < int (2 + 1)"
    by (simp add: short_bus_def)
  ultimately have "fst (spi_read default_config short_bus (fresh ()) 1 (replicate 8 0) 2) < 0"
    by simp
  moreover have "fst (spi_read default_config short_bus (fresh ()) 1 (replicate 8 0) 2) = 0"
    by code_simp
  ultimately show False by simp
qed

subsection \<open>The probe on the register-file device\<close>

lemma uint_len: "len \<le> 255 \<Longrightarrow> uint (word_of_nat (len + 1) :: u32) = int len + 1"
proof -
  assume "len \<le> 255"
  then have t: "take_bit LENGTH(32) (len + 1) = len + 1"
    by (simp add: take_bit_nat_eq_self_iff)
  have "uint (word_of_nat (len + 1) :: u32) = int (take_bit LENGTH(32) (len + 1))"
    by (rule unsigned_of_nat)
  also have "\<dots> = int len + 1"
    unfolding t by simp
  finally show ?thesis .
qed

lemma uint_len': "len \<le> 255 \<Longrightarrow> uint (1 + word_of_nat len :: u32) = int len + 1"
proof -
  assume l: "len \<le> 255"
  have "(1 + word_of_nat len :: u32) = word_of_nat (len + 1)" by simp
  then show ?thesis using uint_len [OF l] by (simp only:)
qed

lemma received_full:
  "length data = length rx \<Longrightarrow> received data rx = data"
  by (simp add: received_def)

lemma stub_zl_read_reg:
  assumes len: "0 < len" "len \<le> 255" and al: "allocs_ok 2 w"
  shows "fst (zl_read_reg cfg (stub_bus regs) w reg buf len) = 0"
    and "fst (snd (zl_read_reg cfg (stub_bus regs) w reg buf len))
         = map (\<lambda>i. regs (reg_page reg) (reg_offset reg + of_nat i)) [0..<len] @ drop len buf"
    and "allocs (snd (snd (zl_read_reg cfg (stub_bus regs) w reg buf len))) = drop 2 (allocs w)"
proof -
  let ?p = "zl_set_page cfg (stub_bus regs) w (reg_page reg)"
  have n: "reg_page reg AND 0x0F = reg_page reg"
    by (rule nibble_id [OF reg_page_le])
  have p0: "fst ?p = 0"
    by (simp add: zl_set_page_ok(1) [OF reg_page_le] stub_write)
  have pd: "dev (snd ?p) = reg_page reg"
    by (simp add: zl_set_page_ok(3) [OF reg_page_le] stub_write n)
  have pa: "allocs (snd ?p) = allocs w"
    by (simp add: zl_set_page_ok(4) [OF reg_page_le])
  have al': "allocs_ok 2 (snd ?p)"
    using al by (simp add: allocs_ok_def pa)
  have z: "zl_read_reg cfg (stub_bus regs) w reg buf len
           = spi_read cfg (stub_bus regs) (snd ?p) (reg_offset reg) buf len"
    using p0 by (simp add: zl_read_reg_unfold)
  have bus: "stub_bus regs (dev (snd ?p)) (read_xfer cfg (reg_offset reg) len)
             = (int len + 1,
                reg_offset reg # map (\<lambda>i. regs (reg_page reg) (reg_offset reg + of_nat i)) [0..<len],
                reg_page reg)"
    by (simp add: stub_read pd uint_len' [OF len(2)])
  note ok = spi_read_ok [where bus = "stub_bus regs" and w = "snd ?p" and cfg = cfg
      and off = "reg_offset reg" and len = len and buf = buf, OF len al' bus]
  have rc: "received
              (reg_offset reg # map (\<lambda>i. regs (reg_page reg) (reg_offset reg + of_nat i)) [0..<len])
              (replicate (len + 1) 0)
            = reg_offset reg # map (\<lambda>i. regs (reg_page reg) (reg_offset reg + of_nat i)) [0..<len]"
    by (rule received_full) simp
  show "fst (zl_read_reg cfg (stub_bus regs) w reg buf len) = 0"
    by (simp add: z ok(1))
  show "fst (snd (zl_read_reg cfg (stub_bus regs) w reg buf len))
         = map (\<lambda>i. regs (reg_page reg) (reg_offset reg + of_nat i)) [0..<len] @ drop len buf"
    unfolding z ok(2) rc by (simp add: memcpy_def)
  show "allocs (snd (snd (zl_read_reg cfg (stub_bus regs) w reg buf len))) = drop 2 (allocs w)"
    by (simp add: z ok(5) pa)
qed


lemma allocs_ok_mono: "k \<le> n \<Longrightarrow> allocs_ok n w \<Longrightarrow> allocs_ok k w"
proof -
  assume k: "k \<le> n" and n: "allocs_ok n w"
  have "set (take k (allocs w)) \<subseteq> set (take n (allocs w))"
    using k by (rule set_take_subset_set_take)
  with n show ?thesis
    by (auto simp add: allocs_ok_def list_all_iff)
qed

lemma allocs_ok_drop:
  assumes "allocs_ok (2 + k) w" "allocs w' = drop 2 (allocs w)"
  shows "allocs_ok k w'"
proof -
  have "take k (drop 2 (allocs w)) = drop 2 (take (2 + k) (allocs w))"
    by (simp add: drop_take)
  then have "set (take k (allocs w')) \<subseteq> set (take (2 + k) (allocs w))"
    using assms(2) by (simp add: set_drop_subset)
  with assms(1) show ?thesis
    by (auto simp add: allocs_ok_def list_all_iff)
qed

lemma stub_ZL_READ_REG_2:
  assumes al: "allocs_ok 2 w"
  shows "fst (ZL_READ_REG en cfg (stub_bus regs) w junk Rn On REG 2 :: (fatal + u16) \<times> u8 world)
         = Inr (from_le [regs (reg_page REG) (reg_offset REG + 1),
                         regs (reg_page REG) (reg_offset REG)])"
    and "allocs (snd (ZL_READ_REG en cfg (stub_bus regs) w junk Rn On REG 2
                        :: (fatal + u16) \<times> u8 world)) = drop 2 (allocs w)"
proof -
  obtain rc b w2 where r: "zl_read_reg cfg (stub_bus regs) w REG (uninit 8 junk) 2 = (rc, b, w2)"
    by (cases "zl_read_reg cfg (stub_bus regs) w REG (uninit 8 junk) 2") auto
  have l: "(0::nat) < 2" "(2::nat) \<le> 255" by simp_all
  note s = stub_zl_read_reg [OF l al, of cfg regs REG "uninit 8 junk"]
  from s r have rc: "rc = 0"
    and b: "b = map (\<lambda>i. regs (reg_page REG) (reg_offset REG + of_nat i)) [0..<2]
                @ drop 2 (uninit 8 junk)"
    and a: "allocs w2 = drop 2 (allocs w)"
    by simp_all
  have t: "take 2 b = [regs (reg_page REG) (reg_offset REG),
                       regs (reg_page REG) (reg_offset REG + 1)]"
    unfolding b by (simp add: upt_rec)
  have z: "(ZL_READ_REG en cfg (stub_bus regs) w junk Rn On REG 2 :: (fatal + u16) \<times> u8 world)
           = (Inr (ucast (ntohs en (object_value en (take 2 b)))), w2)"
    by (simp add: ZL_READ_REG_def length_uninit Let_def r rc)
  show "fst (ZL_READ_REG en cfg (stub_bus regs) w junk Rn On REG 2 :: (fatal + u16) \<times> u8 world)
         = Inr (from_le [regs (reg_page REG) (reg_offset REG + 1),
                         regs (reg_page REG) (reg_offset REG)])"
    unfolding z t ntohs_bytes by simp
  show "allocs (snd (ZL_READ_REG en cfg (stub_bus regs) w junk Rn On REG 2
                        :: (fatal + u16) \<times> u8 world)) = drop 2 (allocs w)"
    unfolding z by (simp add: a)
qed

lemma stub_ZL_READ_REG_4:
  assumes al: "allocs_ok 2 w"
  shows "fst (ZL_READ_REG en cfg (stub_bus regs) w junk Rn On REG 4 :: (fatal + u32) \<times> u8 world)
         = Inr (from_le [regs (reg_page REG) (reg_offset REG + 3),
                         regs (reg_page REG) (reg_offset REG + 2),
                         regs (reg_page REG) (reg_offset REG + 1),
                         regs (reg_page REG) (reg_offset REG)])"
    and "allocs (snd (ZL_READ_REG en cfg (stub_bus regs) w junk Rn On REG 4
                        :: (fatal + u32) \<times> u8 world)) = drop 2 (allocs w)"
proof -
  obtain rc b w2 where r: "zl_read_reg cfg (stub_bus regs) w REG (uninit 8 junk) 4 = (rc, b, w2)"
    by (cases "zl_read_reg cfg (stub_bus regs) w REG (uninit 8 junk) 4") auto
  have l: "(0::nat) < 4" "(4::nat) \<le> 255" by simp_all
  note s = stub_zl_read_reg [OF l al, of cfg regs REG "uninit 8 junk"]
  from s r have rc: "rc = 0"
    and b: "b = map (\<lambda>i. regs (reg_page REG) (reg_offset REG + of_nat i)) [0..<4]
                @ drop 4 (uninit 8 junk)"
    and a: "allocs w2 = drop 2 (allocs w)"
    by simp_all
  have t: "take 4 b = [regs (reg_page REG) (reg_offset REG),
                       regs (reg_page REG) (reg_offset REG + 1),
                       regs (reg_page REG) (reg_offset REG + 2),
                       regs (reg_page REG) (reg_offset REG + 3)]"
    unfolding b by (simp add: upt_rec)
  have z: "(ZL_READ_REG en cfg (stub_bus regs) w junk Rn On REG 4 :: (fatal + u32) \<times> u8 world)
           = (Inr (ucast (ntohl en (object_value en (take 4 b)))), w2)"
    by (simp add: ZL_READ_REG_def length_uninit Let_def r rc)
  show "fst (ZL_READ_REG en cfg (stub_bus regs) w junk Rn On REG 4 :: (fatal + u32) \<times> u8 world)
         = Inr (from_le [regs (reg_page REG) (reg_offset REG + 3),
                         regs (reg_page REG) (reg_offset REG + 2),
                         regs (reg_page REG) (reg_offset REG + 1),
                         regs (reg_page REG) (reg_offset REG)])"
    unfolding z t ntohl_bytes by simp
  show "allocs (snd (ZL_READ_REG en cfg (stub_bus regs) w junk Rn On REG 4
                        :: (fatal + u32) \<times> u8 world)) = drop 2 (allocs w)"
    unfolding z by (simp add: a)
qed


lemma id_block_addresses:
  "reg_page ZL_REG_ID = 0" "reg_offset ZL_REG_ID = 1"
  "reg_page ZL_REG_REVISION = 0" "reg_offset ZL_REG_REVISION = 3"
  "reg_page ZL_REG_FW_VER = 0" "reg_offset ZL_REG_FW_VER = 5"
  "reg_page ZL_REG_CUSTOM_CONFIG_VER = 0" "reg_offset ZL_REG_CUSTOM_CONFIG_VER = 7"
  by code_simp+

lemma report_example:
  "report cfg 0x0E95 0x0010 0x0002 0x00000001
   = ''ZL3073x identity via '' @ devnode cfg @ newline
     @ ''  Chip ID              : 0x0E95  (ZL3073x (A))'' @ newline
     @ ''  Revision             : 0x0010  (major=1 minor=0)'' @ newline
     @ ''  Firmware Version     : 0x0002'' @ newline
     @ ''  Custom Config Version: 0x00000001'' @ newline"
proof -
  have "printf_X 4 (unat (0x0E95 :: u16)) = ''0E95''" by code_simp
  moreover have "lookup_name 0x0E95 = ''ZL3073x (A)''" by code_simp
  moreover have "printf_X 4 (unat (0x0010 :: u16)) = ''0010''" by code_simp
  moreover have "printf_u (unat (drop_bit 4 (0x0010 :: u16) AND 0xF)) = ''1''" by code_simp
  moreover have "printf_u (unat ((0x0010 :: u16) AND 0xF)) = ''0''" by code_simp
  moreover have "printf_X 4 (unat (0x0002 :: u16)) = ''0002''" by code_simp
  moreover have "printf_X 8 (unat (0x00000001 :: u32)) = ''00000001''" by code_simp
  ultimately show ?thesis
    by (simp only: report_def) simp
qed

text \<open>
  Claim C8. On a register-file device whose page 0 holds 0E 95 at offset 1, 00 10 at
  offset 3, 00 02 at offset 5 and 00 00 00 01 at offset 7, and with every allocation
  succeeding, the probe exits with \<open>EXIT_SUCCESS\<close> and prints Chip ID 0x0E95 with the
  name "ZL3073x (A)", Revision 0x0010 with major=1 and minor=0, Firmware Version
  0x0002 and Custom Config Version 0x00000001, whatever the other registers, the
  page selected before, the host byte order, the options and the stack contents.
\<close>

theorem probe_end_to_end:
  assumes id: "map (regs 0) [1, 2] = [0x0E, 0x95]"
    and rev: "map (regs 0) [3, 4] = [0x00, 0x10]"
    and fw: "map (regs 0) [5, 6] = [0x00, 0x02]"
    and cv: "map (regs 0) [7, 8, 9, 10] = [0x00, 0x00, 0x00, 0x01]"
    and al: "allocs_ok 8 w"
  shows "fst (main_probe en cfg (stub_bus regs) w junk) = EXIT_SUCCESS
       \<and> fst (snd (main_probe en cfg (stub_bus regs) w junk))
         = ''ZL3073x identity via '' @ devnode cfg @ newline
           @ ''  Chip ID              : 0x0E95  (ZL3073x (A))'' @ newline
           @ ''  Revision             : 0x0010  (major=1 minor=0)'' @ newline
           @ ''  Firmware Version     : 0x0002'' @ newline
           @ ''  Custom Config Version: 0x00000001'' @ newline"
proof -
  define R1 :: "(fatal + u16) \<times> u8 world"
    where "R1 = ZL_READ_REG en cfg (stub_bus regs) w (junk 0) ''ZL_REG_ID'' ''chip_id''
                  ZL_REG_ID 2"
  define R2 :: "(fatal + u16) \<times> u8 world"
    where "R2 = ZL_READ_REG en cfg (stub_bus regs) (snd R1) (junk 1) ''ZL_REG_REVISION''
                  ''revision'' ZL_REG_REVISION 2"
  define R3 :: "(fatal + u16) \<times> u8 world"
    where "R3 = ZL_READ_REG en cfg (stub_bus regs) (snd R2) (junk 2) ''ZL_REG_FW_VER''
                  ''fw_ver'' ZL_REG_FW_VER 2"
  define R4 :: "(fatal + u32) \<times> u8 world"
    where "R4 = ZL_READ_REG en cfg (stub_bus regs) (snd R3) (junk 3)
                  ''ZL_REG_CUSTOM_CONFIG_VER'' ''cfg_ver'' ZL_REG_CUSTOM_CONFIG_VER 4"
  have m: "main_probe en cfg (stub_bus regs) w junk =
      (case fst R1 of
           Inl f \<Rightarrow> exit_errx f (snd R1)
         | Inr chip_id \<Rightarrow>
        (case fst R2 of
           Inl f \<Rightarrow> exit_errx f (snd R2)
         | Inr revision \<Rightarrow>
        (case fst R3 of
           Inl f \<Rightarrow> exit_errx f (snd R3)
         | Inr fw_ver \<Rightarrow>
        (case fst R4 of
           Inl f \<Rightarrow> exit_errx f (snd R4)
         | Inr cfg_ver \<Rightarrow>
             (EXIT_SUCCESS, report cfg chip_id revision fw_ver cfg_ver, snd R4)))))"
    unfolding R1_def R2_def R3_def R4_def by (simp only: main_probe_unfold Let_def)
  from id have b1: "regs 0 1 = 0x0E" "regs 0 (1 + 1) = 0x95" by simp_all
  from rev have b2: "regs 0 3 = 0x00" "regs 0 (3 + 1) = 0x10" by simp_all
  from fw have b3: "regs 0 5 = 0x00" "regs 0 (5 + 1) = 0x02" by simp_all
  from cv have b4: "regs 0 7 = 0x00" "regs 0 (7 + 1) = 0x00" "regs 0 (7 + 2) = 0x00"
      "regs 0 (7 + 3) = 0x01" by simp_all
  have a1: "allocs_ok 2 w"
    using al by (rule allocs_ok_mono [rotated]) simp
  have v1: "fst R1 = Inr 0x0E95" and s1: "allocs (snd R1) = drop 2 (allocs w)"
    unfolding R1_def
    by (simp_all only: stub_ZL_READ_REG_2 [OF a1] id_block_addresses b1) simp
  have al2: "allocs_ok 6 (snd R1)"
    by (rule allocs_ok_drop [OF _ s1]) (use al in simp)
  have a2: "allocs_ok 2 (snd R1)"
    using al2 by (rule allocs_ok_mono [rotated]) simp
  have v2: "fst R2 = Inr 0x0010" and s2: "allocs (snd R2) = drop 2 (allocs (snd R1))"
    unfolding R2_def
    by (simp_all only: stub_ZL_READ_REG_2 [OF a2] id_block_addresses b2) simp
  have al3: "allocs_ok 4 (snd R2)"
    by (rule allocs_ok_drop [OF _ s2]) (use al2 in simp)
  have a3: "allocs_ok 2 (snd R2)"
    using al3 by (rule allocs_ok_mono [rotated]) simp
  have v3: "fst R3 = Inr 0x0002" and s3: "allocs (snd R3) = drop 2 (allocs (snd R2))"
    unfolding R3_def
    by (simp_all only: stub_ZL_READ_REG_2 [OF a3] id_block_addresses b3) simp
  have a4: "allocs_ok 2 (snd R3)"
    by (rule allocs_ok_drop [OF _ s3]) (use al3 in simp)
  have v4: "fst R4 = Inr 0x00000001"
    unfolding R4_def
    by (simp only: stub_ZL_READ_REG_4 [OF a4] id_block_addresses b4) simp
  have "main_probe en cfg (stub_bus regs) w junk
        = (EXIT_SUCCESS, report cfg 0x0E95 0x0010 0x0002 0x00000001, snd R4)"
    by (simp add: m v1 v2 v3 v4)
  then show ?thesis
    by (simp only: report_example fst_conv snd_conv simp_thms)
qed

theorem probe_end_to_end_witness:
  "main_probe BigEndian default_config (stub_bus id_regs) (fresh 3) (\<lambda>i. [0xAA, 0xBB])
   = (EXIT_SUCCESS,
      ''ZL3073x identity via /dev/spidev0.0'' @ newline
      @ ''  Chip ID              : 0x0E95  (ZL3073x (A))'' @ newline
      @ ''  Revision             : 0x0010  (major=1 minor=0)'' @ newline
      @ ''  Firmware Version     : 0x0002'' @ newline
      @ ''  Custom Config Version: 0x00000001'' @ newline,
      snd (snd (main_probe BigEndian default_config (stub_bus id_regs) (fresh 3)
                  (\<lambda>i. [0xAA, 0xBB]))))"
proof -
  have h1: "map (id_regs 0) [1, 2] = [0x0E, 0x95]" by (simp add: id_regs_def)
  have h2: "map (id_regs 0) [3, 4] = [0x00, 0x10]" by (simp add: id_regs_def)
  have h3: "map (id_regs 0) [5, 6] = [0x00, 0x02]" by (simp add: id_regs_def)
  have h4: "map (id_regs 0) [7, 8, 9, 10] = [0x00, 0x00, 0x00, 0x01]" by (simp add: id_regs_def)
  have h5: "allocs_ok 8 (fresh (3 :: u8))" by (simp add: allocs_ok_def fresh_def)
  have d: "devnode default_config = ''/dev/spidev0.0''" by (simp add: default_config_def)
  from probe_end_to_end [where regs = id_regs and w = "fresh 3" and en = BigEndian
         and cfg = default_config and junk = "\<lambda>i. [0xAA, 0xBB]", OF h1 h2 h3 h4 h5]
  show ?thesis
    unfolding d by (simp add: prod_eq_iff)
qed

subsection \<open>Aliasing of register addresses\<close>

lemma spi_read_valid_not_EINVAL:
  assumes "0 < len" "len \<le> 255"
  shows "fst (spi_read cfg bus w off buf len) \<noteq> - EINVAL"
proof (cases "allocs_ok 2 w")
  case False
  with assms show ?thesis
    by (simp add: spi_read_nomem EINVAL_def ENOMEM_def)
next
  case True
  obtain ret data d where bus: "bus (dev w) (read_xfer cfg off len) = (ret, data, d)"
    by (cases "bus (dev w) (read_xfer cfg off len)") auto
  note ok = spi_read_ok [where bus = bus and w = w and cfg = cfg and off = off and len = len
      and buf = buf, OF assms True bus]
  show ?thesis
    by (simp add: ok(1) EINVAL_def)
qed

text \<open>
  Claim C9. For every 16-bit address \<open>reg\<close> and every length, \<open>zl_read_reg\<close> does
  exactly what it does for \<open>reg mod 0x800\<close>: the page is \<open>(reg >> 7) & 0xF\<close>, so the
  addresses 0x800 to 0xFFFF alias into [0, 0x7FF]. The page that \<open>zl_read_reg\<close>
  passes to \<open>zl_set_page\<close> is never above 15, so the \<open>-EINVAL\<close> branch of
  \<open>zl_set_page\<close> is never taken from \<open>zl_read_reg\<close>: \<open>zl_read_reg\<close> is the byte
  write of the page to the page-select register followed, when that write succeeded,
  by \<open>spi_read\<close>; the first transfer it submits is always that write; and it returns
  \<open>-EINVAL\<close> only for a length of 0 or above 255, never for a valid one.
\<close>

theorem zl_read_reg_aliases:
  "zl_read_reg cfg bus w reg buf len = zl_read_reg cfg bus w (reg AND 0x7FF) buf len
   \<and> unat (reg AND 0x7FF) = unat reg mod 0x800
   \<and> reg_page reg \<le> 0x0F
   \<and> zl_set_page cfg bus w (reg_page reg)
       = spi_write_u8 cfg bus
           (if debug cfg > 0
            then fprintf_stderr w
                   (''PAGE -> 0x'' @ printf_X 0 (unat (reg_page reg))
                    @ '' (write 0x'' @ printf_X 2 (unat (reg_page reg))
                    @ '' to 0x'' @ printf_X 2 (unat ZL_PAGE_SEL) @ '')'' @ newline)
            else w)
           ZL_PAGE_SEL (reg_page reg)
   \<and> fst (zl_set_page cfg bus w (reg_page reg)) \<noteq> - EINVAL
   \<and> unat (reg_page reg) = unat reg div 128 mod 16
   \<and> unat (reg_offset reg) = unat reg mod 128
   \<and> zl_read_reg cfg bus w reg buf len
       = (case spi_write_u8 cfg bus
                 (if debug cfg > 0
                  then fprintf_stderr w
                         (''PAGE -> 0x'' @ printf_X 0 (unat (reg_page reg))
                          @ '' (write 0x'' @ printf_X 2 (unat (reg_page reg))
                          @ '' to 0x'' @ printf_X 2 (unat ZL_PAGE_SEL) @ '')'' @ newline)
                  else w)
                 ZL_PAGE_SEL (reg_page reg) of
            (rc, w1) \<Rightarrow>
              if rc \<noteq> 0 then (rc, buf, w1)
              else spi_read cfg bus w1 (reg_offset reg) buf len)
   \<and> (\<exists>rest. new_xfers w (snd (snd (zl_read_reg cfg bus w reg buf len)))
              = (write_xfer cfg ZL_PAGE_SEL (reg_page reg),
                 fst (bus (dev w) (write_xfer cfg ZL_PAGE_SEL (reg_page reg)))) # rest)
   \<and> (fst (zl_read_reg cfg bus w reg buf len) = - EINVAL \<longrightarrow> len = 0 \<or> 255 < len)"
proof -
  let ?p = "zl_set_page cfg bus w (reg_page reg)"
  let ?wx = "(write_xfer cfg ZL_PAGE_SEL (reg_page reg),
              fst (bus (dev w) (write_xfer cfg ZL_PAGE_SEL (reg_page reg))))"
  have a: "zl_read_reg cfg bus w reg buf len = zl_read_reg cfg bus w (reg AND 0x7FF) buf len"
    by (simp only: zl_read_reg_def reg_page_alias reg_offset_alias)
  have b: "unat (reg AND 0x7FF) = unat reg mod 0x800"
    unfolding m11 by (simp only: unat_and_mask) simp
  have le: "\<not> 0x0F < reg_page reg"
    using reg_page_le [of reg] by (simp add: not_less)
  have n: "reg_page reg AND 0x0F = reg_page reg"
    by (rule nibble_id [OF reg_page_le])
  have c: "?p
       = spi_write_u8 cfg bus
           (if debug cfg > 0
            then fprintf_stderr w
                   (''PAGE -> 0x'' @ printf_X 0 (unat (reg_page reg))
                    @ '' (write 0x'' @ printf_X 2 (unat (reg_page reg))
                    @ '' to 0x'' @ printf_X 2 (unat ZL_PAGE_SEL) @ '')'' @ newline)
            else w)
           ZL_PAGE_SEL (reg_page reg)"
    using le n by (simp add: zl_set_page_def Let_def)
  have d: "fst ?p \<noteq> - EINVAL"
    by (simp add: zl_set_page_ok(1) [OF reg_page_le] EINVAL_def)
  have e: "zl_read_reg cfg bus w reg buf len
       = (case ?p of
            (rc, w1) \<Rightarrow>
              if rc \<noteq> 0 then (rc, buf, w1)
              else spi_read cfg bus w1 (reg_offset reg) buf len)"
    by (simp only: zl_read_reg_def Let_def)
  have px: "xfers (snd ?p) = xfers w @ [?wx]"
    using zl_set_page_ok(2) [OF reg_page_le, of cfg bus w reg] by (simp only: n)
  have f: "\<exists>rest. new_xfers w (snd (snd (zl_read_reg cfg bus w reg buf len))) = ?wx # rest"
  proof (cases "fst ?p = 0")
    case False
    then have "xfers (snd (snd (zl_read_reg cfg bus w reg buf len))) = xfers w @ [?wx]"
      by (simp add: zl_read_reg_unfold px)
    then have "new_xfers w (snd (snd (zl_read_reg cfg bus w reg buf len))) = [?wx]"
      by (rule new_xfers_append)
    then show ?thesis by blast
  next
    case True
    obtain new where "xfers (snd (snd (spi_read cfg bus (snd ?p) (reg_offset reg) buf len)))
                      = xfers (snd ?p) @ new"
      using spi_read_log [of cfg bus "snd ?p" "reg_offset reg" buf len] by blast
    with True have "xfers (snd (snd (zl_read_reg cfg bus w reg buf len)))
                    = xfers w @ (?wx # new)"
      by (simp add: zl_read_reg_unfold px)
    then have "new_xfers w (snd (snd (zl_read_reg cfg bus w reg buf len))) = ?wx # new"
      by (rule new_xfers_append)
    then show ?thesis by blast
  qed
  have g: "fst (zl_read_reg cfg bus w reg buf len) = - EINVAL \<longrightarrow> len = 0 \<or> 255 < len"
  proof (intro impI, rule ccontr)
    assume r: "fst (zl_read_reg cfg bus w reg buf len) = - EINVAL"
      and "\<not> (len = 0 \<or> 255 < len)"
    then have v: "0 < len" "len \<le> 255" by simp_all
    show False
    proof (cases "fst ?p = 0")
      case False
      with zl_set_page_fst [of cfg bus w reg] have "fst ?p = - 1" by simp
      with r show False by (simp add: zl_read_reg_unfold EINVAL_def)
    next
      case True
      with r have "fst (spi_read cfg bus (snd ?p) (reg_offset reg) buf len) = - EINVAL"
        by (simp add: zl_read_reg_unfold)
      with spi_read_valid_not_EINVAL [OF v] show False by blast
    qed
  qed
  from a b reg_page_le [of reg] c d page_unat [of reg] off_unat [of reg] e [unfolded c] f g
  show ?thesis by (intro conjI)
qed

theorem zl_read_reg_aliases_witness:
  "zl_read_reg default_config (stub_bus id_regs) (fresh 0) 0x0801 (replicate 8 0) 2
     = zl_read_reg default_config (stub_bus id_regs) (fresh 0) 0x0001 (replicate 8 0) 2
   \<and> reg_page 0xFFFF \<le> 0x0F
   \<and> fst (zl_read_reg default_config (stub_bus id_regs) (fresh 0) 0x0010 (replicate 8 0) 2) = 0
   \<and> new_xfers (fresh 0)
        (snd (snd (zl_read_reg default_config (stub_bus id_regs) (fresh 0) 0xFFFF
                     (replicate 8 0) 2)))
      = [(write_xfer default_config ZL_PAGE_SEL 0x0F, 2), (read_xfer default_config 0x7F 2, 3)]"
proof -
  have r: "fst (zl_read_reg default_config (stub_bus id_regs) (fresh 0) 0x0010
                  (replicate 8 0) 2) = 0"
    by code_simp
  have x: "new_xfers (fresh 0)
        (snd (snd (zl_read_reg default_config (stub_bus id_regs) (fresh 0) 0xFFFF
                     (replicate 8 0) 2)))
      = [(write_xfer default_config ZL_PAGE_SEL 0x0F, 2), (read_xfer default_config 0x7F 2, 3)]"
    by code_simp
  from zl_read_reg_aliases [of default_config "stub_bus id_regs" "fresh 0" "0x0801"
         "replicate 8 0" 2]
    zl_read_reg_aliases [of default_config "stub_bus id_regs" "fresh 0" "0xFFFF"
         "replicate 8 0" 2]
    zl_read_reg_aliases [of default_config "stub_bus id_regs" "fresh 0" "0x0010"
         "replicate 8 0" 2]
  show ?thesis
    using r x by simp
qed

end
